theory Spec2Isabelle
  imports Complex_Main
begin

section \<open>Data model of the interactive board (src/app/interactive/page.tsx)\<close>

text \<open>
  JavaScript numbers are modelled as reals: the code under study only stores and copies
  them, it does no arithmetic on them (a \<^verbatim>\<open>NaN\<close> out of \<^verbatim>\<open>parseFloat\<close> is not modelled).
  Strings are byte lists; the two non-ASCII characters of the user-visible messages are
  written as their UTF-8 bytes.
\<close>

type_synonym number = real

text \<open>A plain object with numeric values (\<^verbatim>\<open>Record<string, number>\<close>), keys in insertion order.\<close>

type_synonym obj = "(string \<times> number) list"

text \<open>
  \<^verbatim>\<open>type Config = { window?, require_same_side?, weights?, unmatched_penalty?, hard_limits? }\<close>:
  every field is optional, \<open>None\<close> is an absent key.
\<close>

record Config =
  window :: "number option"
  require_same_side :: "bool option"
  weights :: "obj option"
  unmatched_penalty :: "number option"
  hard_limits :: "obj option"

datatype preset_name = Strict | Balanced | Lenient

text \<open>An edge of the flow; the code reads only \<^verbatim>\<open>source\<close> and \<^verbatim>\<open>target\<close>.\<close>

record edge =
  source :: string
  target :: string

text \<open>
  A node of the flow: \<^verbatim>\<open>{ id, type, position, data }\<close>. The data bag depends on the
  stage. The handlers of gate, limits and unmatched only call state setters with updater
  functions, so they carry no state of their own. The evaluate node's
  \<^verbatim>\<open>onEvaluate: () => evaluate()\<close> closes over \<^verbatim>\<open>evaluate\<close>, which closes over
  \<^verbatim>\<open>isValidGraph\<close>, which closes over the \<^verbatim>\<open>nodes\<close> and \<^verbatim>\<open>edges\<close> of the render
  that built the library item: the closure is represented by those two captured values.
\<close>

datatype node = Node (node_id: string) (node_type: string) (position: "number \<times> number")
    (data: node_data)
and node_data =
    InputData
  | GateData number bool
  | LimitsData number number number
  | UnmatchedData number
  | EvaluateData "node list" "edge list"

section \<open>The graph validator\<close>

text \<open>
  \<^verbatim>\<open>
  const edgeSet = new Set(edges.map((e) => `${e.source}->${e.target}`));
  const hasEvaluate = nodes.some((n) => n.id === "evaluate");
  const hasInputGate = edgeSet.has("input->gate");
  const hasToEvaluate = edges.some((e) => e.target === "evaluate");
  return hasEvaluate && hasInputGate && hasToEvaluate;
  \<close>
\<close>

definition edgeSet :: "edge list \<Rightarrow> string set" where
  "edgeSet es = set (map (\<lambda>e. source e @ ''->'' @ target e) es)"

definition isValidGraph :: "node list \<Rightarrow> edge list \<Rightarrow> bool" where
  "isValidGraph ns es =
     (let hasEvaluate = list_ex (\<lambda>n. node_id n = ''evaluate'') ns;
          hasInputGate = (''input->gate'' \<in> edgeSet es);
          hasToEvaluate = list_ex (\<lambda>e. target e = ''evaluate'') es
      in hasEvaluate \<and> hasInputGate \<and> hasToEvaluate)"

section \<open>Plain objects and the preset catalog\<close>

text \<open>\<^verbatim>\<open>o[k] = v\<close> on an ordered object: an existing key keeps its place, a new key goes last.\<close>

fun assign :: "(string \<times> 'v) list \<Rightarrow> string \<Rightarrow> 'v \<Rightarrow> (string \<times> 'v) list" where
  "assign [] k v = [(k, v)]"
| "assign ((k', v') # ob) k v = (if k' = k then (k, v) # ob else (k', v') # assign ob k v)"

text \<open>The object spread \<^verbatim>\<open>{ ...a, ...b }\<close>: the entries of \<open>b\<close> are assigned in their order.\<close>

fun spread :: "(string \<times> 'v) list \<Rightarrow> (string \<times> 'v) list \<Rightarrow> (string \<times> 'v) list" where
  "spread a [] = a"
| "spread a ((k, v) # b) = spread (assign a k v) b"

text \<open>\<^verbatim>\<open>x || {}\<close> for an optional object (an object is never falsy).\<close>

definition or_empty :: "obj option \<Rightarrow> obj" where
  "or_empty x = (case x of None \<Rightarrow> [] | Some ob \<Rightarrow> ob)"

text \<open>One key of \<^verbatim>\<open>{ ...c, ...p }\<close>: the value of \<open>p\<close> when \<open>p\<close> has the key, else that of \<open>c\<close>.\<close>

definition over :: "'a option \<Rightarrow> 'a option \<Rightarrow> 'a option" where
  "over c p = (case p of None \<Rightarrow> c | Some v \<Rightarrow> Some v)"

text \<open>\<^verbatim>\<open>x ?? d\<close>.\<close>

definition nullish :: "'a option \<Rightarrow> 'a \<Rightarrow> 'a" where
  "nullish x d = (case x of None \<Rightarrow> d | Some v \<Rightarrow> v)"

text \<open>\<^verbatim>\<open>ob?.[k]\<close> on an optional object.\<close>

definition opt_get :: "obj option \<Rightarrow> string \<Rightarrow> number option" where
  "opt_get x k = (case x of None \<Rightarrow> None | Some ob \<Rightarrow> map_of ob k)"

definition spread_Config :: "Config \<Rightarrow> Config \<Rightarrow> Config" where
  "spread_Config c p =
     \<lparr> window = over (window c) (window p),
       require_same_side = over (require_same_side c) (require_same_side p),
       weights = over (weights c) (weights p),
       unmatched_penalty = over (unmatched_penalty c) (unmatched_penalty p),
       hard_limits = over (hard_limits c) (hard_limits p) \<rparr>"

text \<open>\<^verbatim>\<open>const PRESETS: Record<"Strict" | "Balanced" | "Lenient", Partial<Config>>\<close>\<close>

fun PRESETS :: "preset_name \<Rightarrow> Config" where
  "PRESETS Strict =
     \<lparr> window = Some (7/2), require_same_side = None,
       weights = Some [(''dist'', 6/5), (''clock'', 7/20), (''depth'', 7/100), (''size'', 3/100)],
       unmatched_penalty = Some 25,
       hard_limits = Some [(''dx'', 7/2), (''clock'', 2), (''cost'', 10)] \<rparr>"
| "PRESETS Balanced =
     \<lparr> window = Some 5, require_same_side = None,
       weights = Some [(''dist'', 1), (''clock'', 3/10), (''depth'', 1/20), (''size'', 1/50)],
       unmatched_penalty = Some 20,
       hard_limits = Some [(''dx'', 5), (''clock'', 3), (''cost'', 12)] \<rparr>"
| "PRESETS Lenient =
     \<lparr> window = Some 7, require_same_side = None,
       weights = Some [(''dist'', 4/5), (''clock'', 1/4), (''depth'', 1/25), (''size'', 3/200)],
       unmatched_penalty = Some 12,
       hard_limits = Some [(''dx'', 7), (''clock'', 4), (''cost'', 18)] \<rparr>"

text \<open>
  The updater that \<^verbatim>\<open>applyPreset\<close> hands to \<^verbatim>\<open>setConfig\<close>:
  \<^verbatim>\<open>
  (c) => ({ ...c, ...p,
    weights: { ...(c.weights || {}), ...(p.weights || {}) },
    hard_limits: { ...(c.hard_limits || {}), ...(p.hard_limits || {}) } })
  \<close>
\<close>

definition applyPreset_config :: "Config \<Rightarrow> Config \<Rightarrow> Config" where
  "applyPreset_config p c =
     (spread_Config c p)
       \<lparr> weights := Some (spread (or_empty (weights c)) (or_empty (weights p))),
         hard_limits := Some (spread (or_empty (hard_limits c)) (or_empty (hard_limits p))) \<rparr>"

text \<open>
  The updater that \<^verbatim>\<open>applyPreset\<close> maps over the nodes. A node's id fixes the shape of
  its data bag, so a bag of another shape under that id is left as it is.
\<close>

definition applyPreset_node :: "Config \<Rightarrow> node \<Rightarrow> node" where
  "applyPreset_node p n =
     (if node_id n = ''gate'' then
        (case data n of
           GateData w rs \<Rightarrow>
             Node (node_id n) (node_type n) (position n) (GateData (nullish (window p) w) rs)
         | _ \<Rightarrow> n)
      else if node_id n = ''limits'' then
        (case data n of
           LimitsData dx clock cost \<Rightarrow>
             Node (node_id n) (node_type n) (position n)
               (LimitsData (nullish (opt_get (hard_limits p) ''dx'') dx)
                  (nullish (opt_get (hard_limits p) ''clock'') clock)
                  (nullish (opt_get (hard_limits p) ''cost'') cost))
         | _ \<Rightarrow> n)
      else if node_id n = ''unmatched'' then
        (case data n of
           UnmatchedData pen \<Rightarrow>
             Node (node_id n) (node_type n) (position n)
               (UnmatchedData (nullish (unmatched_penalty p) pen))
         | _ \<Rightarrow> n)
      else n)"

section \<open>The request body\<close>

text \<open>
  \<^verbatim>\<open>JSON.stringify\<close> is modelled up to the text of numbers: its result is the JSON document,
  an object holding the keys that are present, in the object's own order.
\<close>

datatype json = JNumber number | JBool bool | JObject "(string \<times> json) list"

definition field :: "string \<Rightarrow> ('a \<Rightarrow> json) \<Rightarrow> 'a option \<Rightarrow> (string \<times> json) list" where
  "field k f x = (case x of None \<Rightarrow> [] | Some v \<Rightarrow> [(k, f v)])"

definition json_obj :: "obj \<Rightarrow> json" where
  "json_obj ob = JObject (map (\<lambda>(k, v). (k, JNumber v)) ob)"

definition JSON_stringify :: "Config \<Rightarrow> json" where
  "JSON_stringify c =
     JObject (field ''window'' JNumber (window c)
            @ field ''require_same_side'' JBool (require_same_side c)
            @ field ''weights'' json_obj (weights c)
            @ field ''unmatched_penalty'' JNumber (unmatched_penalty c)
            @ field ''hard_limits'' json_obj (hard_limits c))"

fun top_level_fields :: "json \<Rightarrow> string list" where
  "top_level_fields (JObject kvs) = map fst kvs"
| "top_level_fields _ = []"

section \<open>The session of the interactive board\<close>

text \<open>
  The React state of \<^verbatim>\<open>Graph\<close>. Two fields are not in the source: \<open>requests\<close> logs the
  bodies handed to \<^verbatim>\<open>fetch("/api/evaluate")\<close>, oldest first, and \<open>pending\<close> counts the
  calls of \<^verbatim>\<open>fetch\<close> that have not settled.
\<close>

record session =
  config :: Config
  configRef :: Config
  warning :: "string option"
  status :: "string option"
  loading :: bool
  preset :: preset_name
  nodes :: "node list"
  edges :: "edge list"
  usedIds :: "string set"
  requests :: "json list"
  pending :: nat

definition default_config :: Config where
  "default_config =
     \<lparr> window = Some 5, require_same_side = Some False,
       weights = Some [(''dist'', 1), (''clock'', 3/10), (''depth'', 1/20), (''size'', 1/50)],
       unmatched_penalty = Some 20,
       hard_limits = Some [(''dx'', 5), (''clock'', 3), (''cost'', 12)] \<rparr>"

definition init :: session where
  "init =
     \<lparr> config = default_config, configRef = default_config, warning = None, status = None,
       loading = False, preset = Balanced, nodes = [], edges = [], usedIds = {},
       requests = [], pending = 0 \<rparr>"

text \<open>What the engine's answer can be, as the code tells the cases apart.\<close>

record Kpis =
  coverage :: number
  plausibility :: number
  stability :: number
  matched :: number
  unmatched_2015 :: number
  unmatched_2022 :: number

text \<open>
  The parsed payload: \<open>PNull\<close> is JSON \<^verbatim>\<open>null\<close>; \<open>PValue\<close> is any other value, with the
  four properties the workbench reads (\<open>None\<close> where the value has no such property).
\<close>

datatype payload = PNull | PValue "Kpis option" "string option" "string option" "string option"

text \<open>
  \<open>Rejected m\<close>: \<^verbatim>\<open>fetch\<close> (or reading the body) rejects with an error of message \<open>m\<close>;
  \<open>NotOk b\<close>: a response with \<^verbatim>\<open>res.ok\<close> false and body text \<open>b\<close>;
  \<open>Unparseable m\<close>: \<^verbatim>\<open>res.ok\<close>, and \<^verbatim>\<open>res.json()\<close> rejects with an error of message \<open>m\<close>;
  \<open>Ok d\<close>: \<^verbatim>\<open>res.ok\<close>, and \<^verbatim>\<open>res.json()\<close> resolves to \<open>d\<close>.
\<close>

datatype fetch_outcome = Rejected string | NotOk string | Unparseable string | Ok payload

text \<open>
  The right arrow (U+2192) and the horizontal ellipsis (U+2026) of the messages, as UTF-8
  bytes.
\<close>

definition arrow :: string where
  "arrow = [CHR 0xE2, CHR 0x86, CHR 0x92]"

definition ellipsis :: string where
  "ellipsis = [CHR 0xE2, CHR 0x80, CHR 0xA6]"

definition remediation :: string where
  "remediation = ''Add Evaluate from the library, connect Input '' @ arrow @ '' Gate '' @ arrow
     @ '' Evaluate, then run.''"

text \<open>
  \<^verbatim>\<open>evaluate\<close> up to its first \<^verbatim>\<open>await\<close>. The arguments \<open>ns\<close> and \<open>es\<close> are the
  \<^verbatim>\<open>nodes\<close> and \<^verbatim>\<open>edges\<close> that the \<^verbatim>\<open>isValidGraph\<close> in scope closes over
  (\<^verbatim>\<open>useCallback(..., [edges, nodes])\<close>); the config is read through \<^verbatim>\<open>configRef\<close>.
  \<^verbatim>\<open>
  if (!isValidGraph()) { setWarning("Add Evaluate ..."); setStatus(null); return; }
  setWarning(null); setStatus("Running..."); setLoading(true);
  try { const res = await fetch("/api/evaluate",
          { method: "POST", ..., body: JSON.stringify(configRef.current) });
  \<close>
\<close>

definition evaluate :: "node list \<Rightarrow> edge list \<Rightarrow> session \<Rightarrow> session" where
  "evaluate ns es s =
     (if \<not> isValidGraph ns es
      then s\<lparr> warning := Some remediation, status := None \<rparr>
      else s\<lparr> warning := None, status := Some (''Running'' @ ellipsis), loading := True,
              requests := requests s @ [JSON_stringify (configRef s)],
              pending := Suc (pending s) \<rparr>)"

text \<open>
  The error caught by \<^verbatim>\<open>catch (e)\<close>, if the \<^verbatim>\<open>try\<close> block throws:
  \<^verbatim>\<open>if (!res.ok) throw new Error(await res.text()); await res.json();\<close>
\<close>

fun thrown :: "fetch_outcome \<Rightarrow> string option" where
  "thrown (Rejected m) = Some m"
| "thrown (NotOk b) = Some b"
| "thrown (Unparseable m) = Some m"
| "thrown (Ok d) = None"

text \<open>\<^verbatim>\<open>e.message || "Evaluation failed"\<close>: the empty string is falsy.\<close>

definition message_or :: "string \<Rightarrow> string \<Rightarrow> string" where
  "message_or m d = (if m = [] then d else m)"

text \<open>
  The rest of \<^verbatim>\<open>evaluate\<close>, run when the request settles:
  \<^verbatim>\<open>
    setStatus("Evaluation succeeded");
  } catch (e) { setWarning(e.message || "Evaluation failed"); setStatus("Evaluation failed"); }
  finally { setLoading(false); }
  \<close>
\<close>

definition evaluate_settle :: "fetch_outcome \<Rightarrow> session \<Rightarrow> session" where
  "evaluate_settle out s =
     (case thrown out of
        None \<Rightarrow> s\<lparr> status := Some ''Evaluation succeeded'', loading := False,
                   pending := pending s - 1 \<rparr>
      | Some m \<Rightarrow> s\<lparr> warning := Some (message_or m ''Evaluation failed''),
                     status := Some ''Evaluation failed'', loading := False,
                     pending := pending s - 1 \<rparr>)"

text \<open>
  \<^verbatim>\<open>applyPreset(name)\<close>:
  \<^verbatim>\<open>setPreset(name); const p = PRESETS[name]; setConfig(...); setNodes((nds) => nds.map(...));\<close>
\<close>

definition applyPreset :: "preset_name \<Rightarrow> session \<Rightarrow> session" where
  "applyPreset name s =
     (let p = PRESETS name
      in s\<lparr> preset := name, config := applyPreset_config p (config s),
             nodes := map (applyPreset_node p) (nodes s) \<rparr>)"

section \<open>The library and the handlers of the board\<close>

record item =
  item_id :: string
  title :: string
  desc :: string
  item_type :: string
  unique :: bool
  item_data :: node_data

text \<open>
  \<^verbatim>\<open>const library = useMemo(() => [...], [config, evaluate, setNodes])\<close>: the items as one
  render builds them, from that render's \<^verbatim>\<open>config\<close> and, for the evaluate item, that
  render's \<^verbatim>\<open>evaluate\<close>, hence that render's \<^verbatim>\<open>nodes\<close> and \<^verbatim>\<open>edges\<close>.
\<close>

definition library :: "session \<Rightarrow> item list" where
  "library s =
     [ \<lparr> item_id = ''input'', title = ''Input'', desc = ''Dataset entry'',
         item_type = ''inputNode'', unique = True, item_data = InputData \<rparr>,
       \<lparr> item_id = ''gate'', title = ''Gate'', desc = ''Window + side filter'',
         item_type = ''gateNode'', unique = True,
         item_data = GateData (nullish (window (config s)) 5)
                       (nullish (require_same_side (config s)) False) \<rparr>,
       \<lparr> item_id = ''limits'', title = ''Limits'', desc = ''dx / clock / cost caps'',
         item_type = ''limitsNode'', unique = True,
         item_data = LimitsData (nullish (opt_get (hard_limits (config s)) ''dx'') 5)
                       (nullish (opt_get (hard_limits (config s)) ''clock'') 3)
                       (nullish (opt_get (hard_limits (config s)) ''cost'') 12) \<rparr>,
       \<lparr> item_id = ''unmatched'', title = ''Unmatched'', desc = ''Penalty control'',
         item_type = ''unmatchedNode'', unique = True,
         item_data = UnmatchedData (nullish (unmatched_penalty (config s)) 20) \<rparr>,
       \<lparr> item_id = ''evaluate'', title = ''Evaluate'', desc = ''Run the graph'',
         item_type = ''evaluateNode'', unique = True,
         item_data = EvaluateData (nodes s) (edges s) \<rparr> ]"

text \<open>
  \<^verbatim>\<open>
  const item = library.find((i) => i.id === itemId);
  if (!item) return;
  if (item.unique && (usedIds.has(item.id) || nodes.some((n) => n.id === item.id))) {
    setWarning(`${item.title} is already on the board.`);
    return;
  }
  const nextIndex = nodes.length;
  const baseY = position?.y ?? 40 + (nextIndex % 3) * 120;
  const baseX = position?.x ?? -200 + Math.floor(nextIndex / 3) * 220;
  setNodes((nds) => [...nds, { id: item.id, type: item.type,
                               position: { x: baseX, y: baseY }, data: item.data }]);
  setUsedIds((prev) => new Set(prev).add(item.id));
  \<close>
\<close>

definition addFromLibrary :: "string \<Rightarrow> (number \<times> number) option \<Rightarrow> session \<Rightarrow> session" where
  "addFromLibrary itemId pos s =
     (case find (\<lambda>i. item_id i = itemId) (library s) of
        None \<Rightarrow> s
      | Some it \<Rightarrow>
          if unique it \<and> (item_id it \<in> usedIds s \<or> list_ex (\<lambda>n. node_id n = item_id it) (nodes s))
          then s\<lparr> warning := Some (title it @ '' is already on the board.'') \<rparr>
          else
            (let nextIndex = length (nodes s);
                 baseY = (case pos of Some (x, y) \<Rightarrow> y
                          | None \<Rightarrow> 40 + real (nextIndex mod 3) * 120);
                 baseX = (case pos of Some (x, y) \<Rightarrow> x
                          | None \<Rightarrow> - 200 + real (nextIndex div 3) * 220)
             in s\<lparr> nodes := nodes s @ [Node (item_id it) (item_type it) (baseX, baseY) (item_data it)],
                    usedIds := insert (item_id it) (usedIds s) \<rparr>))"

text \<open>
  The handlers held in the data of the gate, limits and unmatched nodes. Each updates the
  config and the node of its own id; \<^verbatim>\<open>{ ...n.data, window: v }\<close> and its like change
  one parameter of the bag. The limits control passes \<^verbatim>\<open>"dx"\<close>, \<^verbatim>\<open>"clock"\<close> or
  \<^verbatim>\<open>"cost"\<close> as \<open>k\<close>.
\<close>

definition set_data :: "node_data \<Rightarrow> node \<Rightarrow> node" where
  "set_data d n = Node (node_id n) (node_type n) (position n) d"

definition onChangeWindow :: "number \<Rightarrow> session \<Rightarrow> session" where
  "onChangeWindow v s =
     s\<lparr> config := (config s)\<lparr> window := Some v \<rparr>,
        nodes := map (\<lambda>n. if node_id n = ''gate''
                          then (case data n of GateData w rs \<Rightarrow> set_data (GateData v rs) n | _ \<Rightarrow> n)
                          else n) (nodes s) \<rparr>"

definition onChangeSame :: "bool \<Rightarrow> session \<Rightarrow> session" where
  "onChangeSame v s =
     s\<lparr> config := (config s)\<lparr> require_same_side := Some v \<rparr>,
        nodes := map (\<lambda>n. if node_id n = ''gate''
                          then (case data n of GateData w rs \<Rightarrow> set_data (GateData w v) n | _ \<Rightarrow> n)
                          else n) (nodes s) \<rparr>"

definition limits_onChange :: "string \<Rightarrow> number \<Rightarrow> session \<Rightarrow> session" where
  "limits_onChange k v s =
     s\<lparr> config := (config s)\<lparr> hard_limits := Some (assign (or_empty (hard_limits (config s))) k v) \<rparr>,
        nodes := map (\<lambda>n. if node_id n = ''limits''
                          then (case data n of
                                  LimitsData dx clock cost \<Rightarrow>
                                    if k = ''dx'' then set_data (LimitsData v clock cost) n
                                    else if k = ''clock'' then set_data (LimitsData dx v cost) n
                                    else if k = ''cost'' then set_data (LimitsData dx clock v) n
                                    else n
                                | _ \<Rightarrow> n)
                          else n) (nodes s) \<rparr>"

definition unmatched_onChange :: "number \<Rightarrow> session \<Rightarrow> session" where
  "unmatched_onChange v s =
     s\<lparr> config := (config s)\<lparr> unmatched_penalty := Some v \<rparr>,
        nodes := map (\<lambda>n. if node_id n = ''unmatched''
                          then (case data n of UnmatchedData pen \<Rightarrow> set_data (UnmatchedData v) n | _ \<Rightarrow> n)
                          else n) (nodes s) \<rparr>"

text \<open>
  The Run button of the evaluate node calls the \<^verbatim>\<open>onEvaluate\<close> held in that node's data,
  that is \<^verbatim>\<open>evaluate\<close> with the graph the closure captured. The button carries no
  \<^verbatim>\<open>disabled\<close> attribute.
\<close>

definition onEvaluate :: "session \<Rightarrow> session" where
  "onEvaluate s =
     (case find (\<lambda>n. node_type n = ''evaluateNode'') (nodes s) of
        None \<Rightarrow> s
      | Some n \<Rightarrow> (case data n of EvaluateData ns es \<Rightarrow> evaluate ns es s | _ \<Rightarrow> s))"

text \<open>
  Modelled from the spec: \<^verbatim>\<open>addEdge\<close> belongs to the flow library, whose code is not part
  of the sources. Spec 4.1, \<^verbatim>\<open>connect\<close>: a no-op if the exact ordered edge already
  exists, otherwise it inserts.
\<close>

definition addEdge :: "edge \<Rightarrow> edge list \<Rightarrow> edge list" where
  "addEdge e es =
     (if list_ex (\<lambda>e'. source e' = source e \<and> target e' = target e) es then es else es @ [e])"

text \<open>\<^verbatim>\<open>setEdges((eds) => addEdge({ ...params, type: "smoothstep", animated: true }, eds))\<close>\<close>

definition onConnect :: "string \<Rightarrow> string \<Rightarrow> session \<Rightarrow> session" where
  "onConnect src tgt s = s\<lparr> edges := addEdge \<lparr> source = src, target = tgt \<rparr> (edges s) \<rparr>"

text \<open>
  Modelled from the spec: the removal of a node is carried out by the flow library through
  the change handlers of \<^verbatim>\<open>useNodesState\<close> and \<^verbatim>\<open>useEdgesState\<close>, which the page only
  passes on (\<^verbatim>\<open>onNodesChange\<close>, \<^verbatim>\<open>onEdgesChange\<close>); the library's code is not part of
  the sources. Spec 4.1: \<^verbatim>\<open>removeNode(id)\<close> removes the node and all edges incident to it.
\<close>

definition removeNode :: "string \<Rightarrow> session \<Rightarrow> session" where
  "removeNode i s =
     s\<lparr> nodes := filter (\<lambda>n. node_id n \<noteq> i) (nodes s),
        edges := filter (\<lambda>e. source e \<noteq> i \<and> target e \<noteq> i) (edges s) \<rparr>"

text \<open>
  The events of a session. \<open>AddFromLibrary\<close> is a call of \<^verbatim>\<open>addFromLibrary\<close> (a click on
  a library card, or a drop with its position); the four change events are the handlers
  of the gate, limits and unmatched controls; \<open>OnEvaluate\<close> is a click on Run;
  \<open>Settle\<close> is the settling of a pending request. After each handler React renders
  again and the effect \<^verbatim>\<open>configRef.current = config\<close> runs before the next event is
  handled.
\<close>

datatype event =
    AddFromLibrary string "(number \<times> number) option"
  | OnChangeWindow number
  | OnChangeSame bool
  | LimitsOnChange string number
  | UnmatchedOnChange number
  | ApplyPreset preset_name
  | OnConnect string string
  | RemoveNode string
  | OnEvaluate
  | Settle fetch_outcome

definition render :: "session \<Rightarrow> session" where
  "render s = s\<lparr> configRef := config s \<rparr>"

fun handle :: "event \<Rightarrow> session \<Rightarrow> session" where
  "handle (AddFromLibrary i pos) s = addFromLibrary i pos s"
| "handle (OnChangeWindow v) s = onChangeWindow v s"
| "handle (OnChangeSame v) s = onChangeSame v s"
| "handle (LimitsOnChange k v) s = limits_onChange k v s"
| "handle (UnmatchedOnChange v) s = unmatched_onChange v s"
| "handle (ApplyPreset name) s = applyPreset name s"
| "handle (OnConnect src tgt) s = onConnect src tgt s"
| "handle (RemoveNode i) s = removeNode i s"
| "handle OnEvaluate s = onEvaluate s"
| "handle (Settle out) s = (if pending s = 0 then s else evaluate_settle out s)"

definition step :: "event \<Rightarrow> session \<Rightarrow> session" where
  "step ev s = render (handle ev s)"

definition session_after :: "event list \<Rightarrow> session \<Rightarrow> session" where
  "session_after evs s = fold step evs s"

section \<open>The direct-edit surface (src/app/workbench/page.tsx)\<close>

text \<open>
  The workbench declares its own \<^verbatim>\<open>Config\<close>, with a sixth optional field
  \<^verbatim>\<open>penalties\<close>. Names shared with the board carry the suffix \<open>_w\<close>.
\<close>

record Config_w =
  window_w :: "number option"
  require_same_side_w :: "bool option"
  weights_w :: "obj option"
  penalties :: "obj option"
  unmatched_penalty_w :: "number option"
  hard_limits_w :: "obj option"

record artifacts_t =
  matches_path :: "string option"
  families_path :: "string option"
  segment_risk_path :: "string option"

record workbench =
  config_w :: Config_w
  loading_w :: bool
  kpis :: "Kpis option"
  artifacts :: "artifacts_t option"
  error :: "string option"
  requests_w :: "json list"
  pending_w :: nat

definition init_w :: workbench where
  "init_w =
     \<lparr> config_w =
         \<lparr> window_w = Some 5, require_same_side_w = Some False,
           weights_w = Some [(''dist'', 1), (''clock'', 3/10), (''depth'', 1/20), (''size'', 1/50)],
           penalties = Some [(''side'', 5), (''type'', 2)],
           unmatched_penalty_w = Some 20,
           hard_limits_w = Some [(''dx'', 5), (''clock'', 3), (''cost'', 12)] \<rparr>,
       loading_w = False, kpis = None, artifacts = None, error = None,
       requests_w = [], pending_w = 0 \<rparr>"

definition JSON_stringify_w :: "Config_w \<Rightarrow> json" where
  "JSON_stringify_w c =
     JObject (field ''window'' JNumber (window_w c)
            @ field ''require_same_side'' JBool (require_same_side_w c)
            @ field ''weights'' json_obj (weights_w c)
            @ field ''penalties'' json_obj (penalties c)
            @ field ''unmatched_penalty'' JNumber (unmatched_penalty_w c)
            @ field ''hard_limits'' json_obj (hard_limits_w c))"

text \<open>\<^verbatim>\<open>updateConfig(patch)\<close>: \<^verbatim>\<open>setConfig((c) => ({ ...c, ...patch }))\<close>\<close>

definition updateConfig :: "Config_w \<Rightarrow> workbench \<Rightarrow> workbench" where
  "updateConfig patch s =
     s\<lparr> config_w :=
          \<lparr> window_w = over (window_w (config_w s)) (window_w patch),
            require_same_side_w = over (require_same_side_w (config_w s)) (require_same_side_w patch),
            weights_w = over (weights_w (config_w s)) (weights_w patch),
            penalties = over (penalties (config_w s)) (penalties patch),
            unmatched_penalty_w = over (unmatched_penalty_w (config_w s)) (unmatched_penalty_w patch),
            hard_limits_w = over (hard_limits_w (config_w s)) (hard_limits_w patch) \<rparr> \<rparr>"

text \<open>
  \<^verbatim>\<open>updateNested(key, patch)\<close>:
  \<^verbatim>\<open>setConfig((c) => ({ ...c, [key]: { ...(c[key] as any), ...patch } }))\<close>.
  The page calls it with the keys \<^verbatim>\<open>"weights"\<close>, \<^verbatim>\<open>"penalties"\<close> and \<^verbatim>\<open>"hard_limits"\<close>.
\<close>

datatype nested_key = K_weights | K_penalties | K_hard_limits

fun updateNested :: "nested_key \<Rightarrow> obj \<Rightarrow> workbench \<Rightarrow> workbench" where
  "updateNested K_weights patch s =
     s\<lparr> config_w := (config_w s)\<lparr> weights_w := Some (spread (or_empty (weights_w (config_w s))) patch) \<rparr> \<rparr>"
| "updateNested K_penalties patch s =
     s\<lparr> config_w := (config_w s)\<lparr> penalties := Some (spread (or_empty (penalties (config_w s))) patch) \<rparr> \<rparr>"
| "updateNested K_hard_limits patch s =
     s\<lparr> config_w := (config_w s)\<lparr> hard_limits_w := Some (spread (or_empty (hard_limits_w (config_w s))) patch) \<rparr> \<rparr>"

text \<open>
  \<^verbatim>\<open>run\<close> up to its first \<^verbatim>\<open>await\<close>:
  \<^verbatim>\<open>setLoading(true); setError(null);
  try { const res = await fetch("/api/evaluate", { ..., body: JSON.stringify(config) });\<close>
\<close>

definition run :: "workbench \<Rightarrow> workbench" where
  "run s =
     s\<lparr> loading_w := True, error := None,
        requests_w := requests_w s @ [JSON_stringify_w (config_w s)],
        pending_w := Suc (pending_w s) \<rparr>"

text \<open>
  The message of the \<^verbatim>\<open>TypeError\<close> that reading \<^verbatim>\<open>data.kpis\<close> throws when the payload
  is \<^verbatim>\<open>null\<close>. Its exact text is the JavaScript engine's; only that it is not empty
  matters here.
\<close>

definition null_read_message :: string where
  "null_read_message = ''Cannot read properties of null''"

text \<open>
  The error caught in \<^verbatim>\<open>run\<close>, if the \<^verbatim>\<open>try\<close> block throws:
  \<^verbatim>\<open>
  if (!res.ok) { throw new Error(await res.text()); }
  const data = await res.json();
  setKpis(data.kpis);
  setArtifacts({ matches_path: data.matches_path, ... });
  \<close>
\<close>

fun thrown_w :: "fetch_outcome \<Rightarrow> string option" where
  "thrown_w (Rejected m) = Some m"
| "thrown_w (NotOk b) = Some b"
| "thrown_w (Unparseable m) = Some m"
| "thrown_w (Ok PNull) = Some null_read_message"
| "thrown_w (Ok (PValue k m f r)) = None"

text \<open>
  The rest of \<^verbatim>\<open>run\<close>:
  \<^verbatim>\<open>} catch (e) { setError(e.message || "Evaluation failed"); }
  finally { setLoading(false); }\<close>
\<close>

definition run_settle :: "fetch_outcome \<Rightarrow> workbench \<Rightarrow> workbench" where
  "run_settle out s =
     (case out of
        Ok (PValue k m f r) \<Rightarrow>
          s\<lparr> kpis := k,
             artifacts := Some \<lparr> matches_path = m, families_path = f, segment_risk_path = r \<rparr>,
             loading_w := False, pending_w := pending_w s - 1 \<rparr>
      | _ \<Rightarrow>
          s\<lparr> error := Some (message_or (case thrown_w out of Some m \<Rightarrow> m | None \<Rightarrow> []) ''Evaluation failed''),
             loading_w := False, pending_w := pending_w s - 1 \<rparr>)"

text \<open>
  The events of the workbench. The button is
  \<^verbatim>\<open><button onClick={run} disabled={loading}>\<close>: a click while \<^verbatim>\<open>loading\<close> does nothing.
\<close>

datatype event_w =
    UpdateConfig Config_w
  | UpdateNested nested_key obj
  | ClickEvaluate
  | Settle_w fetch_outcome

fun step_w :: "event_w \<Rightarrow> workbench \<Rightarrow> workbench" where
  "step_w (UpdateConfig patch) s = updateConfig patch s"
| "step_w (UpdateNested key patch) s = updateNested key patch s"
| "step_w ClickEvaluate s = (if loading_w s then s else run s)"
| "step_w (Settle_w out) s = (if pending_w s = 0 then s else run_settle out s)"

definition workbench_after :: "event_w list \<Rightarrow> workbench \<Rightarrow> workbench" where
  "workbench_after evs s = fold step_w evs s"

section \<open>The scenario graph of the specification\<close>

text \<open>Nodes input, gate and evaluate, with the edges input to gate and gate to evaluate.\<close>

definition scenario_edges :: "edge list" where
  "scenario_edges =
     [\<lparr> source = ''input'', target = ''gate'' \<rparr>, \<lparr> source = ''gate'', target = ''evaluate'' \<rparr>]"

definition scenario_nodes :: "node list" where
  "scenario_nodes =
     [Node ''input'' ''inputNode'' (- 200, 40) InputData,
      Node ''gate'' ''gateNode'' (- 200, 160) (GateData 5 False),
      Node ''evaluate'' ''evaluateNode'' (- 200, 280)
        (EvaluateData [Node ''input'' ''inputNode'' (- 200, 40) InputData,
                       Node ''gate'' ''gateNode'' (- 200, 160) (GateData 5 False)] [])]"

section \<open>Predicates and sessions used in the statements\<close>

text \<open>Every field of the Config is present (spec 3: the Config is always fully populated).\<close>

definition fully_populated :: "Config \<Rightarrow> bool" where
  "fully_populated c \<longleftrightarrow>
     window c \<noteq> None \<and> require_same_side c \<noteq> None \<and> weights c \<noteq> None
     \<and> unmatched_penalty c \<noteq> None \<and> hard_limits c \<noteq> None"

definition fully_populated_w :: "Config_w \<Rightarrow> bool" where
  "fully_populated_w c \<longleftrightarrow>
     window_w c \<noteq> None \<and> require_same_side_w c \<noteq> None \<and> weights_w c \<noteq> None
     \<and> penalties c \<noteq> None \<and> unmatched_penalty_w c \<noteq> None \<and> hard_limits_w c \<noteq> None"

text \<open>
  The validator that the Run handler of a node closes over rejects (true of every node
  that is not an evaluate node).
\<close>

fun handler_rejects :: "node \<Rightarrow> bool" where
  "handler_rejects (Node i t p (EvaluateData ns es)) = (\<not> isValidGraph ns es)"
| "handler_rejects _ = True"


text \<open>The board after the gate has been placed from the library and removed again.\<close>

definition gate_removed :: session where
  "gate_removed = session_after [AddFromLibrary ''gate'' None, RemoveNode ''gate''] init"


text \<open>A session whose board holds the scenario graph.\<close>

definition scenario_session :: session where
  "scenario_session = init\<lparr> nodes := scenario_nodes, edges := scenario_edges \<rparr>"

section \<open>Properties of the validator\<close>

lemma arrow_key_unique:
  "s @ ''->'' @ t = ''input->gate'' \<longleftrightarrow> s = ''input'' \<and> t = ''gate''"
  by (auto simp: append_eq_Cons_conv)

lemma hasInputGate_iff:
  "''input->gate'' \<in> edgeSet es \<longleftrightarrow> (\<exists>e\<in>set es. source e = ''input'' \<and> target e = ''gate'')"
proof -
  have "''input->gate'' \<in> edgeSet es
          \<longleftrightarrow> (\<exists>e\<in>set es. source e @ ''->'' @ target e = ''input->gate'')"
    unfolding edgeSet_def by (force simp: image_iff)
  then show ?thesis
    by (simp only: arrow_key_unique)
qed

lemma isValidGraph_conditions:
  "isValidGraph ns es \<longleftrightarrow>
      (\<exists>n\<in>set ns. node_id n = ''evaluate'')
    \<and> (\<exists>e\<in>set es. source e = ''input'' \<and> target e = ''gate'')
    \<and> (\<exists>e\<in>set es. target e = ''evaluate'')"
  by (simp add: isValidGraph_def Let_def list_ex_iff hasInputGate_iff)

lemma scenario_valid: "isValidGraph scenario_nodes scenario_edges"
  by (simp add: isValidGraph_conditions scenario_nodes_def scenario_edges_def)

lemma empty_invalid: "\<not> isValidGraph [] []"
  by (simp add: isValidGraph_conditions)

text \<open>
  C1. The validator accepts a graph if and only if a node with id \<^verbatim>\<open>evaluate\<close> exists, an
  edge with source \<^verbatim>\<open>input\<close> and target \<^verbatim>\<open>gate\<close> exists, and some edge has target
  \<^verbatim>\<open>evaluate\<close>. Every graph whose node ids are input, gate, evaluate and whose edges are
  input to gate and gate to evaluate is accepted; without its input-to-gate edges, or
  without its evaluate node, it is rejected.
\<close>

theorem isValidGraph_iff:
  "(isValidGraph ns es \<longleftrightarrow>
      (\<exists>n\<in>set ns. node_id n = ''evaluate'')
    \<and> (\<exists>e\<in>set es. source e = ''input'' \<and> target e = ''gate'')
    \<and> (\<exists>e\<in>set es. target e = ''evaluate''))
   \<and> (node_id ` set ns = {''input'', ''gate'', ''evaluate''}
      \<and> (\<lambda>e. (source e, target e)) ` set es = {(''input'', ''gate''), (''gate'', ''evaluate'')}
      \<longrightarrow> isValidGraph ns es
        \<and> \<not> isValidGraph ns (filter (\<lambda>e. \<not> (source e = ''input'' \<and> target e = ''gate'')) es)
        \<and> \<not> isValidGraph (filter (\<lambda>n. node_id n \<noteq> ''evaluate'') ns) es)"
proof -
  have iff: "isValidGraph ns es \<longleftrightarrow>
      (\<exists>n\<in>set ns. node_id n = ''evaluate'')
    \<and> (\<exists>e\<in>set es. source e = ''input'' \<and> target e = ''gate'')
    \<and> (\<exists>e\<in>set es. target e = ''evaluate'')" for ns es
    by (rule isValidGraph_conditions)
  have scen: "isValidGraph ns es
        \<and> \<not> isValidGraph ns (filter (\<lambda>e. \<not> (source e = ''input'' \<and> target e = ''gate'')) es)
        \<and> \<not> isValidGraph (filter (\<lambda>n. node_id n \<noteq> ''evaluate'') ns) es"
    if N: "node_id ` set ns = {''input'', ''gate'', ''evaluate''}"
    and E: "(\<lambda>e. (source e, target e)) ` set es = {(''input'', ''gate''), (''gate'', ''evaluate'')}"
  proof -
    from N have "''evaluate'' \<in> node_id ` set ns" by simp
    then have n: "\<exists>n\<in>set ns. node_id n = ''evaluate''" by auto
    from E have "(''input'', ''gate'') \<in> (\<lambda>e. (source e, target e)) ` set es" by simp
    then have e1: "\<exists>e\<in>set es. source e = ''input'' \<and> target e = ''gate''" by auto
    from E have "(''gate'', ''evaluate'') \<in> (\<lambda>e. (source e, target e)) ` set es" by simp
    then have e2: "\<exists>e\<in>set es. target e = ''evaluate''" by auto
    show ?thesis using n e1 e2 by (auto simp: iff)
  qed
  show ?thesis using iff scen by blast
qed

theorem isValidGraph_iff_witness:
  "isValidGraph scenario_nodes scenario_edges
   \<and> \<not> isValidGraph scenario_nodes
        (filter (\<lambda>e. \<not> (source e = ''input'' \<and> target e = ''gate'')) scenario_edges)
   \<and> \<not> isValidGraph (filter (\<lambda>n. node_id n \<noteq> ''evaluate'') scenario_nodes) scenario_edges
   \<and> \<not> isValidGraph [] []"
proof -
  have N: "node_id ` set scenario_nodes = {''input'', ''gate'', ''evaluate''}"
    by (simp add: scenario_nodes_def)
  have E: "(\<lambda>e. (source e, target e)) ` set scenario_edges
             = {(''input'', ''gate''), (''gate'', ''evaluate'')}"
    by (simp add: scenario_edges_def)
  have a: "isValidGraph scenario_nodes scenario_edges
      \<and> \<not> isValidGraph scenario_nodes
           (filter (\<lambda>e. \<not> (source e = ''input'' \<and> target e = ''gate'')) scenario_edges)
      \<and> \<not> isValidGraph (filter (\<lambda>n. node_id n \<noteq> ''evaluate'') scenario_nodes) scenario_edges"
    using isValidGraph_iff [of scenario_nodes scenario_edges] N E by blast
  have b: "\<not> isValidGraph [] []"
    using isValidGraph_iff [of "[]" "[]"] by simp
  show ?thesis
    using a b by blast
qed

section \<open>Objects: assignment and spread\<close>

lemma map_of_assign: "map_of (assign ob k v) = (map_of ob)(k \<mapsto> v)"
  by (induction ob) auto

lemma keys_assign: "fst ` set (assign ob k v) = insert k (fst ` set ob)"
proof (induction ob)
  case Nil
  then show ?case by simp
next
  case (Cons x ob)
  obtain k0 v0 where x: "x = (k0, v0)" by (cases x)
  show ?case using Cons.IH by (auto simp: x)
qed

lemma distinct_assign: "distinct (map fst ob) \<Longrightarrow> distinct (map fst (assign ob k v))"
proof (induction ob)
  case Nil
  then show ?case by simp
next
  case (Cons kv ob)
  obtain k' v' where kv: "kv = (k', v')" by (cases kv)
  show ?case using Cons by (auto simp: kv keys_assign)
qed

lemma map_of_spread: "map_of (spread a b) = map_of a ++ map_of (rev b)"
proof (induction b arbitrary: a)
  case Nil
  then show ?case by simp
next
  case (Cons kv b)
  obtain k v where kv: "kv = (k, v)" by (cases kv)
  have "map_of (spread a (kv # b)) = map_of (assign a k v) ++ map_of (rev b)"
    by (simp add: kv Cons.IH)
  also have "\<dots> = (map_of a)(k \<mapsto> v) ++ map_of (rev b)"
    by (simp only: map_of_assign)
  also have "\<dots> = map_of a ++ (map_of (rev b @ [(k, v)]))"
    by (rule ext) (simp add: map_add_def split: option.splits)
  finally show ?case by (simp add: kv)
qed

lemma map_of_rev_distinct: "distinct (map fst b) \<Longrightarrow> map_of (rev b) = map_of b"
  by (rule map_of_inject_set[THEN iffD2]) (simp_all add: rev_map[symmetric])

lemma lookup_spread:
  "distinct (map fst b) \<Longrightarrow>
   map_of (spread a b) k = (case map_of b k of Some v \<Rightarrow> Some v | None \<Rightarrow> map_of a k)"
  by (simp add: map_of_spread map_of_rev_distinct map_add_def)

lemma assign_assign_same: "assign (assign c k v') k v = assign c k v"
  by (induction c) auto

lemma assign_commute:
  "k \<in> fst ` set c \<Longrightarrow> k \<noteq> k' \<Longrightarrow> assign (assign c k' v') k v = assign (assign c k v) k' v'"
proof (induction c)
  case Nil
  then show ?case by simp
next
  case (Cons x c)
  obtain k0 v0 where x: "x = (k0, v0)" by (cases x)
  show ?case
  proof (cases "k0 = k \<or> k0 = k'")
    case True
    then show ?thesis using Cons.prems by (auto simp: x)
  next
    case False
    with Cons.prems have "k \<in> fst ` set c" by (auto simp: x)
    then show ?thesis using Cons.IH Cons.prems(2) False by (simp add: x)
  qed
qed

lemma assign_spread_present:
  "k \<in> fst ` set c \<Longrightarrow> k \<notin> fst ` set a \<Longrightarrow> assign (spread c a) k v = spread (assign c k v) a"
proof (induction a arbitrary: c)
  case Nil
  then show ?case by simp
next
  case (Cons kv a)
  obtain k' v' where kv: "kv = (k', v')" by (cases kv)
  from Cons.prems have ne: "k \<noteq> k'" and notin: "k \<notin> fst ` set a" by (auto simp: kv)
  from Cons.prems(1) have "k \<in> fst ` set (assign c k' v')" by (simp add: keys_assign)
  then have "assign (spread (assign c k' v') a) k v = spread (assign (assign c k' v') k v) a"
    using notin by (rule Cons.IH)
  also have "assign (assign c k' v') k v = assign (assign c k v) k' v'"
    using Cons.prems(1) ne by (rule assign_commute)
  finally show ?case by (simp add: kv)
qed

lemma assign_spread:
  "distinct (map fst a) \<Longrightarrow> assign (spread c a) k v = spread c (assign a k v)"
proof (induction a arbitrary: c)
  case Nil
  then show ?case by simp
next
  case (Cons kv a)
  obtain k' v' where kv: "kv = (k', v')" by (cases kv)
  from Cons.prems have d: "distinct (map fst a)" and notin: "k' \<notin> fst ` set a" by (auto simp: kv)
  show ?case
  proof (cases "k' = k")
    case True
    have "k \<in> fst ` set (assign c k v')" by (simp add: keys_assign)
    then have "assign (spread (assign c k v') a) k v = spread (assign (assign c k v') k v) a"
      using notin True by (intro assign_spread_present) auto
    then show ?thesis by (simp add: kv True assign_assign_same)
  next
    case False
    then show ?thesis using Cons.IH[OF d] by (simp add: kv)
  qed
qed

lemma spread_assoc:
  "distinct (map fst a) \<Longrightarrow> spread (spread c a) b = spread c (spread a b)"
proof (induction b arbitrary: a)
  case Nil
  then show ?case by simp
next
  case (Cons kv b)
  obtain k v where kv: "kv = (k, v)" by (cases kv)
  have "spread c (spread a (kv # b)) = spread c (spread (assign a k v) b)" by (simp add: kv)
  also have "\<dots> = spread (spread c (assign a k v)) b"
    using Cons.IH[OF distinct_assign[OF Cons.prems]] by simp
  also have "\<dots> = spread (assign (spread c a) k v) b"
    by (simp add: assign_spread[OF Cons.prems])
  finally show ?case by (simp add: kv)
qed

lemma over_assoc: "over (over a b) c = over a (over b c)"
  by (cases c) (simp_all add: over_def)

lemma or_empty_Some: "or_empty (Some ob) = ob"
  by (simp add: or_empty_def)

lemma applyPreset_config_assoc:
  assumes "distinct (map fst (or_empty (weights p)))" and "distinct (map fst (or_empty (hard_limits p)))"
  shows "applyPreset_config q (applyPreset_config p c) = applyPreset_config (applyPreset_config q p) c"
  using assms
  by (simp add: applyPreset_config_def spread_Config_def over_assoc or_empty_Some spread_assoc)

lemma PRESETS_distinct:
  "distinct (map fst (or_empty (weights (PRESETS name))))"
  "distinct (map fst (or_empty (hard_limits (PRESETS name))))"
  by (cases name; simp add: or_empty_def)+

section \<open>The library\<close>

lemma library_ids: "map item_id (library s) = [''input'', ''gate'', ''limits'', ''unmatched'', ''evaluate'']"
  by (simp add: library_def)

lemma library_unique: "it \<in> set (library s) \<Longrightarrow> unique it"
  by (auto simp: library_def)

lemma find_library_None:
  "itemId \<notin> {''input'', ''gate'', ''limits'', ''unmatched'', ''evaluate''} \<Longrightarrow>
   find (\<lambda>i. item_id i = itemId) (library s) = None"
  by (auto simp: library_def)

lemma find_library_Some:
  "itemId \<in> {''input'', ''gate'', ''limits'', ''unmatched'', ''evaluate''} \<Longrightarrow>
   \<exists>it. find (\<lambda>i. item_id i = itemId) (library s) = Some it \<and> item_id it = itemId \<and> unique it
      \<and> it \<in> set (library s)"
  by (auto simp: library_def)

lemma addFromLibrary_unknown:
  "itemId \<notin> {''input'', ''gate'', ''limits'', ''unmatched'', ''evaluate''} \<Longrightarrow>
   addFromLibrary itemId pos s = s"
  by (simp add: addFromLibrary_def find_library_None)

lemma addFromLibrary_refused:
  assumes "itemId \<in> {''input'', ''gate'', ''limits'', ''unmatched'', ''evaluate''}"
    and "itemId \<in> usedIds s \<or> (\<exists>n\<in>set (nodes s). node_id n = itemId)"
  shows "\<exists>it\<in>set (library s). item_id it = itemId
           \<and> addFromLibrary itemId pos s = s\<lparr> warning := Some (title it @ '' is already on the board.'') \<rparr>"
proof -
  from find_library_Some[OF assms(1)] obtain it where
    it: "find (\<lambda>i. item_id i = itemId) (library s) = Some it" "item_id it = itemId" "unique it"
        "it \<in> set (library s)" by blast
  have "addFromLibrary itemId pos s = s\<lparr> warning := Some (title it @ '' is already on the board.'') \<rparr>"
    using assms(2) it by (simp add: addFromLibrary_def list_ex_iff)
  with it show ?thesis by blast
qed

lemma addFromLibrary_placed:
  assumes "itemId \<in> {''input'', ''gate'', ''limits'', ''unmatched'', ''evaluate''}"
    and "\<not> (itemId \<in> usedIds s \<or> (\<exists>n\<in>set (nodes s). node_id n = itemId))"
  shows "\<exists>it\<in>set (library s). \<exists>p. item_id it = itemId
           \<and> addFromLibrary itemId pos s =
               s\<lparr> nodes := nodes s @ [Node itemId (item_type it) p (item_data it)],
                  usedIds := insert itemId (usedIds s) \<rparr>"
proof -
  from find_library_Some[OF assms(1)] obtain it where
    it: "find (\<lambda>i. item_id i = itemId) (library s) = Some it" "item_id it = itemId" "unique it"
        "it \<in> set (library s)" by blast
  let ?p = "(case pos of Some (x, y) \<Rightarrow> x | None \<Rightarrow> - 200 + real (length (nodes s) div 3) * 220,
             case pos of Some (x, y) \<Rightarrow> y | None \<Rightarrow> 40 + real (length (nodes s) mod 3) * 120)"
  have "addFromLibrary itemId pos s =
               s\<lparr> nodes := nodes s @ [Node itemId (item_type it) ?p (item_data it)],
                  usedIds := insert itemId (usedIds s) \<rparr>"
    using assms(2) it by (simp add: addFromLibrary_def list_ex_iff Let_def)
  with it show ?thesis by blast
qed

section \<open>What the events of the board preserve\<close>

lemma addFromLibrary_keeps:
  "requests (addFromLibrary i pos s) = requests s"
  "pending (addFromLibrary i pos s) = pending s"
  "config (addFromLibrary i pos s) = config s"
  "configRef (addFromLibrary i pos s) = configRef s"
  "edges (addFromLibrary i pos s) = edges s"
  "loading (addFromLibrary i pos s) = loading s"
  by (simp_all add: addFromLibrary_def Let_def split: option.splits)

lemma usedIds_addFromLibrary: "usedIds s \<subseteq> usedIds (addFromLibrary i pos s)"
  by (auto simp: addFromLibrary_def Let_def split: option.splits)

lemma requests_evaluate:
  "requests (evaluate ns es s) =
     (if isValidGraph ns es then requests s @ [JSON_stringify (configRef s)] else requests s)"
  by (simp add: evaluate_def)

lemma requests_onEvaluate: "\<exists>xs. requests (onEvaluate s) = requests s @ xs"
  by (simp add: onEvaluate_def requests_evaluate split: option.splits node_data.splits)

lemma requests_handle: "\<exists>xs. requests (handle ev s) = requests s @ xs"
proof (cases ev)
  case OnEvaluate
  then show ?thesis using requests_onEvaluate by simp
next
  case (Settle out)
  then show ?thesis by (simp add: evaluate_settle_def split: option.splits)
qed (simp_all add: addFromLibrary_keeps onChangeWindow_def onChangeSame_def limits_onChange_def
      unmatched_onChange_def applyPreset_def Let_def onConnect_def removeNode_def)

lemma requests_step: "\<exists>xs. requests (step ev s) = requests s @ xs"
  using requests_handle[of ev s] by (simp add: step_def render_def)

lemma requests_session_after: "\<exists>xs. requests (session_after evs s) = requests s @ xs"
proof (induction evs arbitrary: s)
  case Nil
  then show ?case by (simp add: session_after_def)
next
  case (Cons ev evs)
  from requests_step[of ev s] obtain xs where xs: "requests (step ev s) = requests s @ xs" by blast
  from Cons.IH[of "step ev s"] obtain ys where
    "requests (session_after evs (step ev s)) = requests (step ev s) @ ys" by blast
  with xs show ?case by (simp add: session_after_def)
qed

lemma usedIds_onEvaluate: "usedIds (onEvaluate s) = usedIds s"
  by (simp add: onEvaluate_def evaluate_def split: option.splits node_data.splits)

lemma usedIds_handle: "usedIds s \<subseteq> usedIds (handle ev s)"
proof (cases ev)
  case (AddFromLibrary i pos)
  then show ?thesis using usedIds_addFromLibrary by simp
next
  case (Settle out)
  then show ?thesis by (simp add: evaluate_settle_def split: option.splits)
qed (simp_all add: usedIds_onEvaluate onChangeWindow_def onChangeSame_def limits_onChange_def
      unmatched_onChange_def applyPreset_def Let_def onConnect_def removeNode_def)

lemma usedIds_session_after: "usedIds s \<subseteq> usedIds (session_after evs s)"
proof (induction evs arbitrary: s)
  case Nil
  then show ?case by (simp add: session_after_def)
next
  case (Cons ev evs)
  have "usedIds s \<subseteq> usedIds (step ev s)"
    using usedIds_handle[of s ev] by (simp add: step_def render_def)
  also have "\<dots> \<subseteq> usedIds (session_after evs (step ev s))" by (rule Cons.IH)
  finally show ?case by (simp add: session_after_def)
qed

lemma fields_populated:
  "fully_populated c \<Longrightarrow>
   top_level_fields (JSON_stringify c) =
     [''window'', ''require_same_side'', ''weights'', ''unmatched_penalty'', ''hard_limits'']"
  by (auto simp: fully_populated_def JSON_stringify_def field_def)

lemma fields_populated_w:
  "fully_populated_w c \<Longrightarrow>
   top_level_fields (JSON_stringify_w c) =
     [''window'', ''require_same_side'', ''weights'', ''penalties'', ''unmatched_penalty'',
      ''hard_limits'']"
  by (auto simp: fully_populated_w_def JSON_stringify_w_def field_def)

lemma over_not_None: "c \<noteq> None \<Longrightarrow> over c p \<noteq> None"
  by (cases p) (simp_all add: over_def)

lemma populated_applyPreset_config: "fully_populated c \<Longrightarrow> fully_populated (applyPreset_config p c)"
  by (simp add: fully_populated_def applyPreset_config_def spread_Config_def over_not_None)

lemma config_onEvaluate: "config (onEvaluate s) = config s"
  by (simp add: onEvaluate_def evaluate_def split: option.splits node_data.splits)

lemma populated_handle: "fully_populated (config s) \<Longrightarrow> fully_populated (config (handle ev s))"
proof (cases ev)
  case (ApplyPreset name)
  assume "fully_populated (config s)"
  then show ?thesis
    by (simp add: ApplyPreset applyPreset_def Let_def populated_applyPreset_config)
next
  case (Settle out)
  assume "fully_populated (config s)"
  then show ?thesis by (simp add: Settle evaluate_settle_def split: option.splits)
qed (simp_all add: addFromLibrary_keeps config_onEvaluate fully_populated_def onChangeWindow_def
      onChangeSame_def limits_onChange_def unmatched_onChange_def onConnect_def removeNode_def)

lemma populated_session_after:
  "fully_populated (config s) \<Longrightarrow> fully_populated (config (session_after evs s))"
proof (induction evs arbitrary: s)
  case Nil
  then show ?case by (simp add: session_after_def)
next
  case (Cons ev evs)
  from Cons.prems have "fully_populated (config (step ev s))"
    using populated_handle[of s ev] by (simp add: step_def render_def)
  then have "fully_populated (config (session_after evs (step ev s)))" by (rule Cons.IH)
  then show ?case by (simp add: session_after_def)
qed

lemma configRef_step: "configRef (step ev s) = config (step ev s)"
  by (simp add: step_def render_def)

lemma configRef_session_after:
  "configRef s = config s \<Longrightarrow> configRef (session_after evs s) = config (session_after evs s)"
proof (induction evs arbitrary: s)
  case Nil
  then show ?case by (simp add: session_after_def)
next
  case (Cons ev evs)
  have "configRef (session_after evs (step ev s)) = config (session_after evs (step ev s))"
    by (rule Cons.IH) (rule configRef_step)
  then show ?case by (simp add: session_after_def)
qed

lemma populated_init: "fully_populated (config init)" "configRef init = config init"
  by (simp_all add: init_def default_config_def fully_populated_def)

lemma populated_step_w:
  "fully_populated_w (config_w s) \<Longrightarrow> fully_populated_w (config_w (step_w ev s))"
proof (cases ev)
  case (UpdateConfig patch)
  assume "fully_populated_w (config_w s)"
  then show ?thesis
    by (simp add: UpdateConfig updateConfig_def fully_populated_w_def over_not_None)
next
  case (UpdateNested key patch)
  assume "fully_populated_w (config_w s)"
  then show ?thesis
    by (cases key) (simp_all add: UpdateNested fully_populated_w_def)
next
  case ClickEvaluate
  assume "fully_populated_w (config_w s)"
  then show ?thesis by (simp add: ClickEvaluate run_def)
next
  case (Settle_w out)
  assume "fully_populated_w (config_w s)"
  then show ?thesis
    by (simp add: Settle_w run_settle_def split: fetch_outcome.splits payload.splits)
qed

lemma bodies_step_w:
  assumes "fully_populated_w (config_w s)"
    and "\<forall>b\<in>set (requests_w s). top_level_fields b = ks"
    and "ks = [''window'', ''require_same_side'', ''weights'', ''penalties'', ''unmatched_penalty'',
      ''hard_limits'']"
  shows "\<forall>b\<in>set (requests_w (step_w ev s)). top_level_fields b = ks"
proof (cases ev)
  case (UpdateConfig patch)
  then show ?thesis using assms(2) by (simp add: updateConfig_def)
next
  case (UpdateNested key patch)
  then show ?thesis using assms(2) by (cases key) simp_all
next
  case ClickEvaluate
  then show ?thesis using assms fields_populated_w[OF assms(1)] by (simp add: run_def)
next
  case (Settle_w out)
  then show ?thesis using assms(2)
    by (simp add: run_settle_def split: fetch_outcome.splits payload.splits)
qed

lemma workbench_invariant:
  assumes "fully_populated_w (config_w s)"
    and "\<forall>b\<in>set (requests_w s). top_level_fields b = ks"
    and "ks = [''window'', ''require_same_side'', ''weights'', ''penalties'', ''unmatched_penalty'',
      ''hard_limits'']"
  shows "fully_populated_w (config_w (workbench_after evs s))
       \<and> (\<forall>b\<in>set (requests_w (workbench_after evs s)). top_level_fields b = ks)"
  using assms
proof (induction evs arbitrary: s)
  case Nil
  then show ?case by (simp add: workbench_after_def)
next
  case (Cons ev evs)
  have 1: "fully_populated_w (config_w (step_w ev s))"
    using Cons.prems(1) by (rule populated_step_w)
  have 2: "\<forall>b\<in>set (requests_w (step_w ev s)). top_level_fields b = ks"
    using Cons.prems by (rule bodies_step_w)
  from Cons.IH[OF 1 2 Cons.prems(3)] show ?case by (simp add: workbench_after_def)
qed

lemma populated_init_w: "fully_populated_w (config_w init_w)" "requests_w init_w = []"
  by (simp_all add: init_w_def fully_populated_w_def)

section \<open>The Run handler of a placed evaluate node\<close>

text \<open>
  The evaluate item can be placed only while no node with id \<^verbatim>\<open>evaluate\<close> is on the board,
  and the handler kept in the placed node's data sees the nodes of that render. Its
  validator therefore rejects, and no event changes the handler: no sequence of board
  events sends a request.
\<close>

lemma handler_rejects_Node:
  "handler_rejects (Node i t p d) \<longleftrightarrow> (case d of EvaluateData ns es \<Rightarrow> \<not> isValidGraph ns es | _ \<Rightarrow> True)"
  by (cases d) simp_all










section \<open>The evaluation request\<close>

text \<open>
  \<^verbatim>\<open>evaluate\<close> itself does not read \<^verbatim>\<open>loading\<close>, and the Run button has no
  \<^verbatim>\<open>disabled\<close> attribute: were it called with a graph that its validator accepts, and
  again before the first request settles, it would hand a second body to \<^verbatim>\<open>fetch\<close>.
  No session of the board reaches such a call, as shown above. The workbench button is
  disabled while loading.
\<close>

lemma evaluate_ignores_loading:
  "loading (evaluate scenario_nodes scenario_edges init)
   \<and> requests (evaluate scenario_nodes scenario_edges (evaluate scenario_nodes scenario_edges init))
       = [JSON_stringify default_config, JSON_stringify default_config]
   \<and> requests_w (workbench_after [ClickEvaluate, ClickEvaluate] init_w)
       = [JSON_stringify_w (config_w init_w)]"
  by (simp add: evaluate_def scenario_valid init_def workbench_after_def run_def init_w_def)









text \<open>
  C3, as stated, fails on the direct-edit surface: the body of the first request of a fresh
  workbench has six top-level fields, \<^verbatim>\<open>penalties\<close> among them.
\<close>

theorem workbench_body_has_penalties:
  "top_level_fields (hd (requests_w (workbench_after [ClickEvaluate] init_w)))
     = [''window'', ''require_same_side'', ''weights'', ''penalties'', ''unmatched_penalty'',
        ''hard_limits'']
   \<and> top_level_fields (hd (requests_w (workbench_after [ClickEvaluate] init_w)))
     \<noteq> [''window'', ''require_same_side'', ''weights'', ''unmatched_penalty'', ''hard_limits'']"
  by (simp add: workbench_after_def run_def init_w_def JSON_stringify_w_def field_def)

text \<open>
  C3. The request body is the serialized Config. On the board it is read through
  \<^verbatim>\<open>configRef\<close> and, after any sequence of events, has exactly the five top-level fields
  window, require_same_side, weights, unmatched_penalty and hard_limits. On the workbench
  it is the workbench's own Config and has, after any sequence of events and in every
  request sent, those five fields and \<^verbatim>\<open>penalties\<close>.
\<close>

theorem request_body_fields:
  "top_level_fields (JSON_stringify (configRef (session_after evs init)))
     = [''window'', ''require_same_side'', ''weights'', ''unmatched_penalty'', ''hard_limits'']
   \<and> (isValidGraph ns es \<longrightarrow>
        requests (evaluate ns es s) = requests s @ [JSON_stringify (configRef s)])
   \<and> requests_w (run w) = requests_w w @ [JSON_stringify_w (config_w w)]
   \<and> top_level_fields (JSON_stringify_w (config_w (workbench_after evs_w init_w)))
     = [''window'', ''require_same_side'', ''weights'', ''penalties'', ''unmatched_penalty'',
        ''hard_limits'']
   \<and> (\<forall>b\<in>set (requests_w (workbench_after evs_w init_w)).
        top_level_fields b
          = [''window'', ''require_same_side'', ''weights'', ''penalties'', ''unmatched_penalty'',
             ''hard_limits''])"
proof -
  have "fully_populated (config (session_after evs init))"
    by (rule populated_session_after) (rule populated_init)
  moreover have "configRef (session_after evs init) = config (session_after evs init)"
    by (rule configRef_session_after) (rule populated_init)
  ultimately have a: "top_level_fields (JSON_stringify (configRef (session_after evs init)))
     = [''window'', ''require_same_side'', ''weights'', ''unmatched_penalty'', ''hard_limits'']"
    by (simp add: fields_populated)
  have w: "fully_populated_w (config_w (workbench_after evs_w init_w))
       \<and> (\<forall>b\<in>set (requests_w (workbench_after evs_w init_w)). top_level_fields b =
            [''window'', ''require_same_side'', ''weights'', ''penalties'', ''unmatched_penalty'',
             ''hard_limits''])"
    by (rule workbench_invariant) (simp_all add: populated_init_w)
  show ?thesis
    using a w by (simp add: requests_evaluate run_def fields_populated_w)
qed

theorem request_body_fields_witness:
  "top_level_fields (JSON_stringify (configRef
       (session_after [ApplyPreset Strict, LimitsOnChange ''dx'' 4] init)))
     = [''window'', ''require_same_side'', ''weights'', ''unmatched_penalty'', ''hard_limits'']
   \<and> requests (evaluate scenario_nodes scenario_edges init) = [JSON_stringify default_config]
   \<and> top_level_fields (hd (requests_w
       (workbench_after [UpdateNested K_penalties [(''side'', 1)], ClickEvaluate] init_w)))
     = [''window'', ''require_same_side'', ''weights'', ''penalties'', ''unmatched_penalty'',
        ''hard_limits'']"
proof -
  note t = request_body_fields [of "[ApplyPreset Strict, LimitsOnChange ''dx'' 4]"
      scenario_nodes scenario_edges init init_w
      "[UpdateNested K_penalties [(''side'', 1)], ClickEvaluate]"]
  have r: "requests_w (workbench_after [UpdateNested K_penalties [(''side'', 1)], ClickEvaluate] init_w) \<noteq> []"
    by (simp add: workbench_after_def run_def init_w_def)
  have "requests (evaluate scenario_nodes scenario_edges init) = [JSON_stringify default_config]"
    using t scenario_valid by (simp add: init_def)
  moreover have "top_level_fields (hd (requests_w
       (workbench_after [UpdateNested K_penalties [(''side'', 1)], ClickEvaluate] init_w)))
     = [''window'', ''require_same_side'', ''weights'', ''penalties'', ''unmatched_penalty'',
        ''hard_limits'']"
    using t r by (meson hd_in_set)
  ultimately show ?thesis using t by blast
qed

text \<open>
  C4. When the transport fails, the engine answers with a non-success status, or the
  payload cannot be parsed, the attempt ends in the failed state: on the board the status
  is \<^verbatim>\<open>Evaluation failed\<close> and the warning holds the message of the failure (the body
  text of a non-success response), or \<^verbatim>\<open>Evaluation failed\<close> when that message is empty;
  on the workbench the error holds the same; on both the loading flag is cleared. A
  non-success response with body \<^verbatim>\<open>bad weights\<close> ends with the message
  \<^verbatim>\<open>bad weights\<close>.
\<close>

theorem failure_ends_in_Failed:
  "(out = Rejected m \<or> out = NotOk m \<or> out = Unparseable m \<longrightarrow>
      status (evaluate_settle out s) = Some ''Evaluation failed''
    \<and> warning (evaluate_settle out s) = Some (if m = [] then ''Evaluation failed'' else m)
    \<and> loading (evaluate_settle out s) = False
    \<and> error (run_settle out w) = Some (if m = [] then ''Evaluation failed'' else m)
    \<and> loading_w (run_settle out w) = False)
   \<and> status (evaluate_settle (NotOk ''bad weights'') s) = Some ''Evaluation failed''
   \<and> warning (evaluate_settle (NotOk ''bad weights'') s) = Some ''bad weights''
   \<and> loading (evaluate_settle (NotOk ''bad weights'') s) = False
   \<and> error (run_settle (NotOk ''bad weights'') w) = Some ''bad weights''
   \<and> loading_w (run_settle (NotOk ''bad weights'') w) = False"
  by (auto simp: evaluate_settle_def run_settle_def message_or_def)

theorem failure_ends_in_Failed_witness:
  "status (evaluate_settle (Rejected []) (evaluate scenario_nodes scenario_edges init))
     = Some ''Evaluation failed''
   \<and> warning (evaluate_settle (Rejected []) (evaluate scenario_nodes scenario_edges init))
     = Some ''Evaluation failed''
   \<and> loading (evaluate_settle (Rejected []) (evaluate scenario_nodes scenario_edges init)) = False
   \<and> error (run_settle (Rejected []) (run init_w)) = Some ''Evaluation failed''
   \<and> loading_w (run_settle (Rejected []) (run init_w)) = False"
  using failure_ends_in_Failed [of "Rejected []" "[]" "evaluate scenario_nodes scenario_edges init"
      "run init_w"]
  by simp

text \<open>
  C5. If the validator rejects the graph that \<^verbatim>\<open>evaluate\<close> sees, the remediation message
  is set as the warning, the status is cleared, and nothing else changes: no request is
  sent, none becomes pending, and the loading flag is untouched. This is so in particular
  for the empty graph.
\<close>

theorem invalid_graph_sends_nothing:
  "(\<not> isValidGraph ns es \<longrightarrow>
      evaluate ns es s = s\<lparr> warning := Some remediation, status := None \<rparr>
    \<and> requests (evaluate ns es s) = requests s
    \<and> pending (evaluate ns es s) = pending s
    \<and> loading (evaluate ns es s) = loading s)
   \<and> warning (evaluate [] [] s) = Some remediation
   \<and> status (evaluate [] [] s) = None
   \<and> requests (evaluate [] [] s) = requests s
   \<and> pending (evaluate [] [] s) = pending s
   \<and> loading (evaluate [] [] s) = loading s"
  by (simp add: evaluate_def empty_invalid)

theorem invalid_graph_sends_nothing_witness:
  "evaluate [] [] init = init\<lparr> warning := Some remediation, status := None \<rparr>
   \<and> requests (evaluate [] [] init) = []
   \<and> pending (evaluate [] [] init) = 0
   \<and> loading (evaluate [] [] init) = False"
  using invalid_graph_sends_nothing [of "[]" "[]" init] empty_invalid
  by (simp add: init_def)

text \<open>
  C9. In a session reached from the initial one, an accepted \<^verbatim>\<open>evaluate\<close> sends the
  serialization of the Config of that moment. Whatever events follow while the request is
  in flight, that body stays as it was sent, at the same place in the log of requests; the
  next accepted \<^verbatim>\<open>evaluate\<close> sends the serialization of the Config as those events
  left it.
\<close>

theorem in_flight_body_fixed:
  assumes "isValidGraph ns es" and "isValidGraph ns' es'"
    and "s = session_after evs0 init"
    and "s1 = evaluate ns es s"
    and "s2 = session_after evs s1"
  shows "requests s1 = requests s @ [JSON_stringify (config s)]
       \<and> (\<exists>xs. requests s2 = requests s @ [JSON_stringify (config s)] @ xs)
       \<and> requests s2 ! length (requests s) = JSON_stringify (config s)
       \<and> requests (evaluate ns' es' s2) = requests s2 @ [JSON_stringify (config s2)]"
proof -
  have ref: "configRef s = config s"
    unfolding assms(3) by (rule configRef_session_after) (rule populated_init)
  have r1: "requests s1 = requests s @ [JSON_stringify (config s)]"
    by (simp add: assms(1,4) requests_evaluate ref)
  from requests_session_after[of evs s1] obtain xs where
    xs: "requests s2 = requests s1 @ xs" unfolding assms(5) by blast
  have ref1: "configRef s1 = config s1"
    by (simp add: assms(4) evaluate_def ref)
  have ref2: "configRef s2 = config s2"
    unfolding assms(5) by (rule configRef_session_after) (rule ref1)
  have r3: "requests (evaluate ns' es' s2) = requests s2 @ [JSON_stringify (config s2)]"
    by (simp add: assms(2) requests_evaluate ref2)
  from r1 xs r3 show ?thesis
    by (simp add: nth_append)
qed

theorem in_flight_body_fixed_witness:
  "requests (evaluate scenario_nodes scenario_edges init) = [JSON_stringify default_config]
   \<and> requests (session_after [OnChangeWindow 7] (evaluate scenario_nodes scenario_edges init)) ! 0
       = JSON_stringify default_config
   \<and> requests (evaluate scenario_nodes scenario_edges
        (session_after [OnChangeWindow 7] (evaluate scenario_nodes scenario_edges init)))
       = [JSON_stringify default_config, JSON_stringify (default_config\<lparr> window := Some 7 \<rparr>)]"
proof -
  have s: "init = session_after [] init" by (simp add: session_after_def)
  note t = in_flight_body_fixed [OF scenario_valid scenario_valid s refl refl, of "[OnChangeWindow 7]"]
  have c: "config init = default_config" "requests init = []" by (simp_all add: init_def)
  have c2: "config (session_after [OnChangeWindow 7] (evaluate scenario_nodes scenario_edges init))
      = default_config\<lparr> window := Some 7 \<rparr>"
    by (simp add: session_after_def step_def render_def onChangeWindow_def evaluate_def
        scenario_valid init_def)
  have c3: "requests (session_after [OnChangeWindow 7] (evaluate scenario_nodes scenario_edges init))
      = [JSON_stringify default_config]"
    by (simp add: session_after_def step_def render_def onChangeWindow_def evaluate_def
        scenario_valid init_def)
  from t show ?thesis
    by (simp add: c c2 c3)
qed

section \<open>Presets\<close>

lemma opt_get_spread:
  "distinct (map fst (or_empty p)) \<Longrightarrow>
   opt_get (Some (spread (or_empty c) (or_empty p))) k =
     (case opt_get p k of Some v \<Rightarrow> Some v | None \<Rightarrow> opt_get c k)"
  unfolding opt_get_def or_empty_def
  by (auto simp: lookup_spread split: option.splits)

text \<open>
  C6. \<^verbatim>\<open>applyPreset\<close> merges the bundle into the current Config: a scalar of the bundle
  replaces the current one, an absent scalar keeps it; in \<^verbatim>\<open>weights\<close> and
  \<^verbatim>\<open>hard_limits\<close> a key of the bundle overrides and a key absent from the bundle is kept.
  Applying two presets in a row equals one merge with the bundle obtained by merging the
  later preset into the earlier one. After Strict then Lenient the hard limits dx, clock
  and cost are Lenient's 7, 4 and 18, and from the initial session the whole
  \<^verbatim>\<open>hard_limits\<close> object equals Lenient's.
\<close>

theorem applyPreset_merges:
  "preset (applyPreset name s) = name
   \<and> config (applyPreset name s) = applyPreset_config (PRESETS name) (config s)
   \<and> window (config (applyPreset name s))
       = (case window (PRESETS name) of Some v \<Rightarrow> Some v | None \<Rightarrow> window (config s))
   \<and> require_same_side (config (applyPreset name s))
       = (case require_same_side (PRESETS name) of Some v \<Rightarrow> Some v
          | None \<Rightarrow> require_same_side (config s))
   \<and> unmatched_penalty (config (applyPreset name s))
       = (case unmatched_penalty (PRESETS name) of Some v \<Rightarrow> Some v
          | None \<Rightarrow> unmatched_penalty (config s))
   \<and> opt_get (weights (config (applyPreset name s))) k
       = (case opt_get (weights (PRESETS name)) k of Some v \<Rightarrow> Some v
          | None \<Rightarrow> opt_get (weights (config s)) k)
   \<and> opt_get (hard_limits (config (applyPreset name s))) k
       = (case opt_get (hard_limits (PRESETS name)) k of Some v \<Rightarrow> Some v
          | None \<Rightarrow> opt_get (hard_limits (config s)) k)
   \<and> config (applyPreset name' (applyPreset name s))
       = applyPreset_config (applyPreset_config (PRESETS name') (PRESETS name)) (config s)
   \<and> opt_get (hard_limits (config (applyPreset Lenient (applyPreset Strict s)))) ''dx'' = Some 7
   \<and> opt_get (hard_limits (config (applyPreset Lenient (applyPreset Strict s)))) ''clock'' = Some 4
   \<and> opt_get (hard_limits (config (applyPreset Lenient (applyPreset Strict s)))) ''cost'' = Some 18
   \<and> hard_limits (config (applyPreset Lenient (applyPreset Strict init)))
       = hard_limits (PRESETS Lenient)"
proof -
  have c: "config (applyPreset n t) = applyPreset_config (PRESETS n) (config t)" for n t
    by (simp add: applyPreset_def Let_def)
  have scal: "window (applyPreset_config p c) = (case window p of Some v \<Rightarrow> Some v | None \<Rightarrow> window c)"
    "require_same_side (applyPreset_config p c)
       = (case require_same_side p of Some v \<Rightarrow> Some v | None \<Rightarrow> require_same_side c)"
    "unmatched_penalty (applyPreset_config p c)
       = (case unmatched_penalty p of Some v \<Rightarrow> Some v | None \<Rightarrow> unmatched_penalty c)" for p c
    by (simp_all add: applyPreset_config_def spread_Config_def over_def split: option.splits)
  have nested: "opt_get (weights (applyPreset_config (PRESETS n) c)) k
       = (case opt_get (weights (PRESETS n)) k of Some v \<Rightarrow> Some v | None \<Rightarrow> opt_get (weights c) k)"
    "opt_get (hard_limits (applyPreset_config (PRESETS n) c)) k
       = (case opt_get (hard_limits (PRESETS n)) k of Some v \<Rightarrow> Some v
          | None \<Rightarrow> opt_get (hard_limits c) k)" for n c k
    by (simp_all add: applyPreset_config_def opt_get_spread PRESETS_distinct)
  have seq: "applyPreset_config (PRESETS n') (applyPreset_config (PRESETS n) c)
       = applyPreset_config (applyPreset_config (PRESETS n') (PRESETS n)) c" for n n' c
    by (rule applyPreset_config_assoc) (rule PRESETS_distinct)+
  have len: "opt_get (hard_limits (applyPreset_config (PRESETS Lenient) c)) ''dx'' = Some 7"
    "opt_get (hard_limits (applyPreset_config (PRESETS Lenient) c)) ''clock'' = Some 4"
    "opt_get (hard_limits (applyPreset_config (PRESETS Lenient) c)) ''cost'' = Some 18" for c
    using nested(2)[of Lenient c "''dx''"] nested(2)[of Lenient c "''clock''"]
      nested(2)[of Lenient c "''cost''"]
    by (simp_all add: opt_get_def)
  have h1: "preset (applyPreset name s) = name"
    by (simp add: applyPreset_def Let_def)
  have h2: "config (applyPreset name s) = applyPreset_config (PRESETS name) (config s)"
    by (rule c)
  have h3: "window (config (applyPreset name s))
       = (case window (PRESETS name) of Some v \<Rightarrow> Some v | None \<Rightarrow> window (config s))"
    by (simp only: c scal)
  have h4: "require_same_side (config (applyPreset name s))
       = (case require_same_side (PRESETS name) of Some v \<Rightarrow> Some v
          | None \<Rightarrow> require_same_side (config s))"
    by (simp only: c scal)
  have h5: "unmatched_penalty (config (applyPreset name s))
       = (case unmatched_penalty (PRESETS name) of Some v \<Rightarrow> Some v
          | None \<Rightarrow> unmatched_penalty (config s))"
    by (simp only: c scal)
  have h6: "opt_get (weights (config (applyPreset name s))) k
       = (case opt_get (weights (PRESETS name)) k of Some v \<Rightarrow> Some v
          | None \<Rightarrow> opt_get (weights (config s)) k)"
    by (simp only: c nested)
  have h7: "opt_get (hard_limits (config (applyPreset name s))) k
       = (case opt_get (hard_limits (PRESETS name)) k of Some v \<Rightarrow> Some v
          | None \<Rightarrow> opt_get (hard_limits (config s)) k)"
    by (simp only: c nested)
  have h8: "config (applyPreset name' (applyPreset name s))
       = applyPreset_config (applyPreset_config (PRESETS name') (PRESETS name)) (config s)"
    by (simp only: c seq)
  have h9: "opt_get (hard_limits (config (applyPreset Lenient (applyPreset Strict s)))) ''dx'' = Some 7"
    "opt_get (hard_limits (config (applyPreset Lenient (applyPreset Strict s)))) ''clock'' = Some 4"
    "opt_get (hard_limits (config (applyPreset Lenient (applyPreset Strict s)))) ''cost'' = Some 18"
    by (simp_all only: c len)
  have h10: "hard_limits (config (applyPreset Lenient (applyPreset Strict init)))
       = hard_limits (PRESETS Lenient)"
    by (simp add: c applyPreset_config_def spread_Config_def or_empty_def init_def default_config_def)
  from h1 h2 h3 h4 h5 h6 h7 h8 h9 h10 show ?thesis
    by blast
qed

theorem applyPreset_merges_witness:
  "config (applyPreset Lenient (applyPreset Strict init))
     = \<lparr> window = Some 7, require_same_side = Some False,
         weights = Some [(''dist'', 4/5), (''clock'', 1/4), (''depth'', 1/25), (''size'', 3/200)],
         unmatched_penalty = Some 12,
         hard_limits = Some [(''dx'', 7), (''clock'', 4), (''cost'', 18)] \<rparr>
   \<and> opt_get (hard_limits (config (applyPreset Lenient (applyPreset Strict init)))) ''dx'' = Some 7"
proof -
  note t = applyPreset_merges [of Strict init "''dx''" Lenient]
  have "applyPreset_config (applyPreset_config (PRESETS Lenient) (PRESETS Strict)) (config init)
     = \<lparr> window = Some 7, require_same_side = Some False,
         weights = Some [(''dist'', 4/5), (''clock'', 1/4), (''depth'', 1/25), (''size'', 3/200)],
         unmatched_penalty = Some 12,
         hard_limits = Some [(''dx'', 7), (''clock'', 4), (''cost'', 18)] \<rparr>"
    by (simp add: applyPreset_config_def spread_Config_def or_empty_def over_def init_def
        default_config_def)
  moreover from t have "config (applyPreset Lenient (applyPreset Strict init))
     = applyPreset_config (applyPreset_config (PRESETS Lenient) (PRESETS Strict)) (config init)"
    by blast
  moreover from t have
    "opt_get (hard_limits (config (applyPreset Lenient (applyPreset Strict init)))) ''dx'' = Some 7"
    by blast
  ultimately show ?thesis by (simp only:)
qed

section \<open>Placing and removing stages\<close>

text \<open>
  C7, as stated, fails: after the gate has been placed and removed, no node of that kind
  is on the board, and adding it again is still refused with the notice.
\<close>

theorem removed_stage_is_refused:
  "nodes gate_removed = []
   \<and> nodes (addFromLibrary ''gate'' None gate_removed) = []
   \<and> usedIds (addFromLibrary ''gate'' None gate_removed) = usedIds gate_removed
   \<and> warning (addFromLibrary ''gate'' None gate_removed) = Some ''Gate is already on the board.''"
  by (simp add: gate_removed_def session_after_def step_def render_def addFromLibrary_def
      library_def removeNode_def init_def Let_def)

text \<open>
  C7. For one of the five library stages, \<^verbatim>\<open>addFromLibrary\<close> refuses exactly when the
  stage's id is in \<^verbatim>\<open>usedIds\<close> or a node with that id is on the board: it then only sets
  the warning to the stage's title followed by \<^verbatim>\<open> is already on the board.\<close> and leaves
  nodes, edges and \<^verbatim>\<open>usedIds\<close> as they are. Otherwise it appends a node with that id
  and the item's type and data, and adds the id to \<^verbatim>\<open>usedIds\<close>. An id that is not in
  the library changes nothing.
\<close>

theorem addFromLibrary_duplicate_iff:
  "(itemId \<in> {''input'', ''gate'', ''limits'', ''unmatched'', ''evaluate''} \<longrightarrow>
     (if itemId \<in> usedIds s \<or> (\<exists>n\<in>set (nodes s). node_id n = itemId)
      then \<exists>it\<in>set (library s). item_id it = itemId
             \<and> addFromLibrary itemId pos s
                 = s\<lparr> warning := Some (title it @ '' is already on the board.'') \<rparr>
      else \<exists>it\<in>set (library s). \<exists>p. item_id it = itemId
             \<and> addFromLibrary itemId pos s
                 = s\<lparr> nodes := nodes s @ [Node itemId (item_type it) p (item_data it)],
                      usedIds := insert itemId (usedIds s) \<rparr>))
   \<and> (itemId \<notin> {''input'', ''gate'', ''limits'', ''unmatched'', ''evaluate''} \<longrightarrow>
        addFromLibrary itemId pos s = s)"
proof (cases "itemId \<in> {''input'', ''gate'', ''limits'', ''unmatched'', ''evaluate''}")
  case known: True
  have "if itemId \<in> usedIds s \<or> (\<exists>n\<in>set (nodes s). node_id n = itemId)
      then \<exists>it\<in>set (library s). item_id it = itemId
             \<and> addFromLibrary itemId pos s
                 = s\<lparr> warning := Some (title it @ '' is already on the board.'') \<rparr>
      else \<exists>it\<in>set (library s). \<exists>p. item_id it = itemId
             \<and> addFromLibrary itemId pos s
                 = s\<lparr> nodes := nodes s @ [Node itemId (item_type it) p (item_data it)],
                      usedIds := insert itemId (usedIds s) \<rparr>"
  proof (cases "itemId \<in> usedIds s \<or> (\<exists>n\<in>set (nodes s). node_id n = itemId)")
    case True
    show ?thesis
      unfolding if_P[OF True] by (rule addFromLibrary_refused[OF known True])
  next
    case False
    show ?thesis
      unfolding if_not_P[OF False] by (rule addFromLibrary_placed[OF known False])
  qed
  with known show ?thesis by blast
next
  case False
  with addFromLibrary_unknown[OF False, of pos s] show ?thesis by blast
qed

theorem addFromLibrary_duplicate_iff_witness:
  "usedIds (addFromLibrary ''gate'' None init) = {''gate''}
   \<and> map node_id (nodes (addFromLibrary ''gate'' None init)) = [''gate'']
   \<and> nodes (addFromLibrary ''gate'' None (addFromLibrary ''gate'' None init))
       = nodes (addFromLibrary ''gate'' None init)
   \<and> addFromLibrary ''penguin'' None init = init"
proof -
  have k: "''gate'' \<in> {''input'', ''gate'', ''limits'', ''unmatched'', ''evaluate''}"
    by simp
  have c1: "\<not> (''gate'' \<in> usedIds init \<or> (\<exists>n\<in>set (nodes init). node_id n = ''gate''))"
    by (simp add: init_def)
  note t1 = addFromLibrary_duplicate_iff [of "''gate''" init None, THEN conjunct1, THEN mp, OF k]
  from t1 [unfolded if_not_P [OF c1]] obtain it :: item and p where
    eq: "addFromLibrary ''gate'' None init =
           init\<lparr> nodes := nodes init @ [Node ''gate'' (item_type it) p (item_data it)],
                 usedIds := insert ''gate'' (usedIds init) \<rparr>"
    by blast
  have u: "usedIds (addFromLibrary ''gate'' None init) = {''gate''}"
    and ids: "map node_id (nodes (addFromLibrary ''gate'' None init)) = [''gate'']"
    unfolding eq by (simp_all add: init_def)
  have c2: "''gate'' \<in> usedIds (addFromLibrary ''gate'' None init)
      \<or> (\<exists>n\<in>set (nodes (addFromLibrary ''gate'' None init)). node_id n = ''gate'')"
    by (simp add: u)
  note t2 = addFromLibrary_duplicate_iff [of "''gate''" "addFromLibrary ''gate'' None init" None,
      THEN conjunct1, THEN mp, OF k]
  from t2 [unfolded if_P [OF c2]] obtain it' :: item where
    "addFromLibrary ''gate'' None (addFromLibrary ''gate'' None init) =
       (addFromLibrary ''gate'' None init)\<lparr> warning := Some (title it' @ '' is already on the board.'') \<rparr>"
    by blast
  then have same: "nodes (addFromLibrary ''gate'' None (addFromLibrary ''gate'' None init))
       = nodes (addFromLibrary ''gate'' None init)"
    by simp
  have unk: "addFromLibrary ''penguin'' None init = init"
    using addFromLibrary_duplicate_iff [of "''penguin''" init None] by simp
  show ?thesis
    apply (intro conjI)
       apply (rule u)
      apply (rule ids)
     apply (rule same)
    apply (rule unk)
    done
qed

text \<open>
  C8. \<^verbatim>\<open>removeNode(id)\<close> removes the node and every edge that has the id as source or
  target, and nothing else; if every edge had both ends on the board before, every edge
  has both ends on the board after. The state after the removal event is that of the
  removal itself: no intermediate state with a dangling edge is observable.
\<close>

theorem removeNode_no_dangling:
  "(\<forall>e\<in>set (edges (removeNode i s)). source e \<noteq> i \<and> target e \<noteq> i)
   \<and> (\<forall>n\<in>set (nodes (removeNode i s)). node_id n \<noteq> i)
   \<and> set (edges (removeNode i s)) = {e \<in> set (edges s). source e \<noteq> i \<and> target e \<noteq> i}
   \<and> set (nodes (removeNode i s)) = {n \<in> set (nodes s). node_id n \<noteq> i}
   \<and> ((\<forall>e\<in>set (edges s). source e \<in> node_id ` set (nodes s) \<and> target e \<in> node_id ` set (nodes s))
      \<longrightarrow> (\<forall>e\<in>set (edges (removeNode i s)).
             source e \<in> node_id ` set (nodes (removeNode i s))
           \<and> target e \<in> node_id ` set (nodes (removeNode i s))))
   \<and> nodes (step (RemoveNode i) s) = nodes (removeNode i s)
   \<and> edges (step (RemoveNode i) s) = edges (removeNode i s)"
proof -
  have n: "nodes (removeNode i s) = filter (\<lambda>n. node_id n \<noteq> i) (nodes s)"
    and e: "edges (removeNode i s) = filter (\<lambda>e. source e \<noteq> i \<and> target e \<noteq> i) (edges s)"
    by (simp_all add: removeNode_def)
  have h1: "\<forall>e\<in>set (edges (removeNode i s)). source e \<noteq> i \<and> target e \<noteq> i"
    by (simp add: e)
  have h2: "\<forall>n\<in>set (nodes (removeNode i s)). node_id n \<noteq> i"
    by (simp add: n)
  have h3: "set (edges (removeNode i s)) = {e \<in> set (edges s). source e \<noteq> i \<and> target e \<noteq> i}"
    by (simp add: e)
  have h4: "set (nodes (removeNode i s)) = {n \<in> set (nodes s). node_id n \<noteq> i}"
    by (simp add: n)
  have keep: "x \<in> node_id ` set (nodes (removeNode i s))"
    if "x \<in> node_id ` set (nodes s)" and "x \<noteq> i" for x
  proof -
    from that(1) obtain m where "m \<in> set (nodes s)" and "node_id m = x" by blast
    with that(2) have "m \<in> set (nodes (removeNode i s))" by (simp add: h4)
    with \<open>node_id m = x\<close> show ?thesis by blast
  qed
  have h5: "\<forall>e\<in>set (edges (removeNode i s)).
             source e \<in> node_id ` set (nodes (removeNode i s))
           \<and> target e \<in> node_id ` set (nodes (removeNode i s))"
    if H: "\<forall>e\<in>set (edges s). source e \<in> node_id ` set (nodes s) \<and> target e \<in> node_id ` set (nodes s)"
  proof
    fix e assume "e \<in> set (edges (removeNode i s))"
    then have "e \<in> set (edges s)" and "source e \<noteq> i" and "target e \<noteq> i"
      by (simp_all add: h3)
    with H keep show "source e \<in> node_id ` set (nodes (removeNode i s))
           \<and> target e \<in> node_id ` set (nodes (removeNode i s))"
      by blast
  qed
  have h6: "nodes (step (RemoveNode i) s) = nodes (removeNode i s)"
    "edges (step (RemoveNode i) s) = edges (removeNode i s)"
    by (simp_all add: step_def render_def)
  show ?thesis
    apply (intro conjI impI)
          apply (rule h1)
         apply (rule h2)
        apply (rule h3)
       apply (rule h4)
      apply (erule h5)
     apply (rule h6(1))
    apply (rule h6(2))
    done
qed

theorem removeNode_no_dangling_witness:
  "edges (removeNode ''evaluate'' scenario_session) = [\<lparr> source = ''input'', target = ''gate'' \<rparr>]
   \<and> ''input'' \<in> node_id ` set (nodes (removeNode ''evaluate'' scenario_session))
   \<and> ''gate'' \<in> node_id ` set (nodes (removeNode ''evaluate'' scenario_session))
   \<and> edges (removeNode ''gate'' scenario_session) = []"
proof -
  note t = removeNode_no_dangling [of "''evaluate''" scenario_session]
  have pre: "\<forall>e\<in>set (edges scenario_session).
      source e \<in> node_id ` set (nodes scenario_session)
    \<and> target e \<in> node_id ` set (nodes scenario_session)"
    by (simp add: scenario_session_def scenario_nodes_def scenario_edges_def)
  from t have "(\<forall>e\<in>set (edges scenario_session).
      source e \<in> node_id ` set (nodes scenario_session)
    \<and> target e \<in> node_id ` set (nodes scenario_session))
    \<longrightarrow> (\<forall>e\<in>set (edges (removeNode ''evaluate'' scenario_session)).
      source e \<in> node_id ` set (nodes (removeNode ''evaluate'' scenario_session))
    \<and> target e \<in> node_id ` set (nodes (removeNode ''evaluate'' scenario_session)))"
    by (elim conjE)
  from this pre have post: "\<forall>e\<in>set (edges (removeNode ''evaluate'' scenario_session)).
      source e \<in> node_id ` set (nodes (removeNode ''evaluate'' scenario_session))
    \<and> target e \<in> node_id ` set (nodes (removeNode ''evaluate'' scenario_session))"
    by (rule mp)
  have e1: "edges (removeNode ''evaluate'' scenario_session) = [\<lparr> source = ''input'', target = ''gate'' \<rparr>]"
    by (simp add: removeNode_def scenario_session_def scenario_edges_def)
  have e2: "edges (removeNode ''gate'' scenario_session) = []"
    by (simp add: removeNode_def scenario_session_def scenario_edges_def)
  from post have "''input'' \<in> node_id ` set (nodes (removeNode ''evaluate'' scenario_session))
   \<and> ''gate'' \<in> node_id ` set (nodes (removeNode ''evaluate'' scenario_session))"
    unfolding e1 by simp
  with e1 e2 show ?thesis by (intro conjI) (elim conjE, assumption)+
qed

lemma addFromLibrary_used:
  assumes "i \<in> usedIds s"
  shows "nodes (addFromLibrary i pos s) = nodes s" "usedIds (addFromLibrary i pos s) = usedIds s"
    "edges (addFromLibrary i pos s) = edges s"
proof -
  have "\<exists>w. addFromLibrary i pos s = s\<lparr> warning := w \<rparr>"
  proof (cases "i \<in> {''input'', ''gate'', ''limits'', ''unmatched'', ''evaluate''}")
    case True
    from assms have "i \<in> usedIds s \<or> (\<exists>n\<in>set (nodes s). node_id n = i)" by simp
    from addFromLibrary_refused[OF True this, of pos] show ?thesis by blast
  next
    case False
    then have "addFromLibrary i pos s = s\<lparr> warning := warning s \<rparr>"
      by (simp add: addFromLibrary_unknown)
    then show ?thesis by blast
  qed
  then obtain w where w: "addFromLibrary i pos s = s\<lparr> warning := w \<rparr>" by blast
  show "nodes (addFromLibrary i pos s) = nodes s" "usedIds (addFromLibrary i pos s) = usedIds s"
    "edges (addFromLibrary i pos s) = edges s"
    by (simp_all add: w)
qed

lemma addFromLibrary_changed:
  assumes "nodes (addFromLibrary i pos s) \<noteq> nodes s"
  shows "i \<in> usedIds (addFromLibrary i pos s)"
proof (cases "i \<in> {''input'', ''gate'', ''limits'', ''unmatched'', ''evaluate''}")
  case known: True
  show ?thesis
  proof (cases "i \<in> usedIds s \<or> (\<exists>n\<in>set (nodes s). node_id n = i)")
    case True
    from addFromLibrary_refused[OF known True, of pos] obtain it :: item where
      "addFromLibrary i pos s = s\<lparr> warning := Some (title it @ '' is already on the board.'') \<rparr>"
      by blast
    then have "nodes (addFromLibrary i pos s) = nodes s" by simp
    with assms show ?thesis by simp
  next
    case False
    from addFromLibrary_placed[OF known False, of pos] obtain it :: item and p where
      "addFromLibrary i pos s =
         s\<lparr> nodes := nodes s @ [Node i (item_type it) p (item_data it)],
            usedIds := insert i (usedIds s) \<rparr>"
      by blast
    then show ?thesis by simp
  qed
next
  case False
  then have "addFromLibrary i pos s = s" by (rule addFromLibrary_unknown)
  with assms show ?thesis by simp
qed

text \<open>
  C10. \<^verbatim>\<open>usedIds\<close> only grows along the events of a session. An \<^verbatim>\<open>addFromLibrary\<close>
  that changes the nodes puts the id into \<^verbatim>\<open>usedIds\<close>. Once an id is in
  \<^verbatim>\<open>usedIds\<close>, after any further events (the removal of its node among them) adding it
  again leaves nodes and \<^verbatim>\<open>usedIds\<close> unchanged and, for a library stage, sets the
  already-on-the-board warning.
\<close>

theorem usedIds_only_grows:
  "usedIds s \<subseteq> usedIds (session_after evs s)
   \<and> (nodes (addFromLibrary i pos s) \<noteq> nodes s \<longrightarrow> i \<in> usedIds (addFromLibrary i pos s))
   \<and> (i \<in> usedIds s \<longrightarrow>
        i \<in> usedIds (session_after evs s)
      \<and> nodes (addFromLibrary i pos' (session_after evs s)) = nodes (session_after evs s)
      \<and> usedIds (addFromLibrary i pos' (session_after evs s)) = usedIds (session_after evs s)
      \<and> (i \<in> {''input'', ''gate'', ''limits'', ''unmatched'', ''evaluate''} \<longrightarrow>
           (\<exists>it\<in>set (library (session_after evs s)). item_id it = i
              \<and> warning (addFromLibrary i pos' (session_after evs s))
                  = Some (title it @ '' is already on the board.''))))"
proof -
  have mono: "usedIds s \<subseteq> usedIds (session_after evs s)" by (rule usedIds_session_after)
  have rest: "i \<in> usedIds (session_after evs s)
      \<and> nodes (addFromLibrary i pos' (session_after evs s)) = nodes (session_after evs s)
      \<and> usedIds (addFromLibrary i pos' (session_after evs s)) = usedIds (session_after evs s)
      \<and> (i \<in> {''input'', ''gate'', ''limits'', ''unmatched'', ''evaluate''} \<longrightarrow>
           (\<exists>it\<in>set (library (session_after evs s)). item_id it = i
              \<and> warning (addFromLibrary i pos' (session_after evs s))
                  = Some (title it @ '' is already on the board.'')))" if "i \<in> usedIds s"
  proof -
    from that mono have u: "i \<in> usedIds (session_after evs s)" by blast
    have w: "\<exists>it\<in>set (library (session_after evs s)). item_id it = i
              \<and> warning (addFromLibrary i pos' (session_after evs s))
                  = Some (title it @ '' is already on the board.'')"
      if "i \<in> {''input'', ''gate'', ''limits'', ''unmatched'', ''evaluate''}"
      using addFromLibrary_refused[OF that, of "session_after evs s" pos'] u by force
    show ?thesis
      apply (intro conjI impI)
         apply (rule u)
        apply (rule addFromLibrary_used(1)[OF u])
       apply (rule addFromLibrary_used(2)[OF u])
      apply (erule w)
      done
  qed
  show ?thesis
    apply (intro conjI impI)
      apply (rule mono)
     apply (erule addFromLibrary_changed)
    apply (erule rest[THEN conjunct1])
      apply (erule rest[THEN conjunct2, THEN conjunct1])
     apply (erule rest[THEN conjunct2, THEN conjunct2, THEN conjunct1])
    apply (erule rest[THEN conjunct2, THEN conjunct2, THEN conjunct2, THEN mp])
    apply assumption
    done
qed

theorem usedIds_only_grows_witness:
  "''gate'' \<in> usedIds (addFromLibrary ''gate'' None init)
   \<and> nodes (session_after [RemoveNode ''gate''] (addFromLibrary ''gate'' None init)) = []
   \<and> nodes (addFromLibrary ''gate'' None
        (session_after [RemoveNode ''gate''] (addFromLibrary ''gate'' None init))) = []
   \<and> ''gate'' \<in> usedIds (session_after [RemoveNode ''gate''] (addFromLibrary ''gate'' None init))"
proof -
  have a: "nodes (addFromLibrary ''gate'' None init) \<noteq> nodes init"
    by (simp add: addFromLibrary_def library_def init_def Let_def)
  have b: "nodes (session_after [RemoveNode ''gate''] (addFromLibrary ''gate'' None init)) = []"
    by (simp add: session_after_def step_def render_def removeNode_def addFromLibrary_def
        library_def init_def Let_def)
  note t1 = usedIds_only_grows [of init "[]" "''gate''" None None]
  from t1 a have u: "''gate'' \<in> usedIds (addFromLibrary ''gate'' None init)" by blast
  note t2 = usedIds_only_grows [of "addFromLibrary ''gate'' None init" "[RemoveNode ''gate'']"
      "''gate''" None None]
  from t2 u b show ?thesis by simp
qed

end
